theory Spec2Isabelle
  imports Complex_Main
begin

section \<open>Data model of the transaction graph component\<close>

text \<open>
  The embedding follows \<^verbatim>\<open>src/components/TransactionGraph.tsx\<close> and, for the
  transactions the component is given, \<^verbatim>\<open>src/app/api/wallet/route.ts\<close> and
  \<^verbatim>\<open>src/app/transactions/page.tsx\<close>.
  A JavaScript \<^verbatim>\<open>number\<close> is modelled as a \<^typ>\<open>real\<close> (no rounding, no NaN),
  a \<^verbatim>\<open>string\<close> as a \<^typ>\<open>string\<close>; the empty string is the only falsy string, so
  the test \<^verbatim>\<open>tx.source && tx.target\<close> is non-emptiness of both addresses.
\<close>

datatype direction = Incoming | Outgoing

datatype detail_level = Low | Medium | High

record transaction =
  source :: string
  target :: string
  amount :: real
  date :: string
  transactionId :: string
  direction :: direction
  gasCost :: real

text \<open>
  A node is a \<^verbatim>\<open>SimulationNodeDatum\<close> with an id and the explored flag. The optional
  fields \<^verbatim>\<open>x, y, fx, fy\<close> are \<open>None\<close> while undefined or null. The velocities
  \<^verbatim>\<open>vx, vy\<close> are private to the force library and never read by the component.
\<close>

record node =
  node_id :: string
  explored :: bool
  node_x :: "real option"
  node_y :: "real option"
  node_fx :: "real option"
  node_fy :: "real option"

text \<open>
  A link stores references to node objects taken from \<^verbatim>\<open>nodeMap\<close>. The nodes live in
  the array \<^verbatim>\<open>nodes\<close>, where ids are unique, so a reference is modelled by the id of
  the node it points to; \<open>None\<close> is the \<^verbatim>\<open>undefined\<close> that \<^verbatim>\<open>Map.get\<close> returns
  for a missing key.
\<close>

record link =
  link_source :: "string option"
  link_target :: "string option"
  link_value :: real
  link_direction :: direction
  link_transactionId :: string

record graph =
  graph_nodes :: "node list"
  graph_links :: "link list"

text \<open>The four messages passed to \<^verbatim>\<open>setError\<close>, in the order of the source.\<close>

datatype graph_error =
    NoTransactionData
  | NoValidTransactionData
  | NoValidConnections
  | RenderingError

fun errorMessage :: "graph_error \<Rightarrow> string" where
  "errorMessage NoTransactionData =
     ''No transaction data available to display in the graph.''"
| "errorMessage NoValidTransactionData =
     ''No valid transaction data found. The transactions may be missing source or target addresses.''"
| "errorMessage NoValidConnections =
     ''No valid connections found between addresses. Try searching for a different address.''"
| "errorMessage RenderingError =
     ''An error occurred while rendering the graph. Please try again later.''"

section \<open>Detail level and transaction limit\<close>

text \<open>The \<^verbatim>\<open>switch (detailLevel)\<close> that feeds \<^verbatim>\<open>setTransactionLimit\<close>.\<close>

fun transactionLimit :: "detail_level \<Rightarrow> nat" where
  "transactionLimit Low = 25"
| "transactionLimit Medium = 50"
| "transactionLimit High = 100"

section \<open>Building nodes and links\<close>

text \<open>
  The filter predicate of \<^verbatim>\<open>validTransactions\<close>. Its third conjunct,
  \<^verbatim>\<open>typeof tx.amount === 'number'\<close>, holds of every value of the declared type of
  \<^verbatim>\<open>amount\<close> and so of every \<^typ>\<open>real\<close>.
\<close>

definition isValid :: "transaction \<Rightarrow> bool" where
  "isValid tx = (source tx \<noteq> [] \<and> target tx \<noteq> [] \<and> source tx \<noteq> target tx)"

definition validTransactions :: "transaction list \<Rightarrow> transaction list" where
  "validTransactions transactions = filter isValid transactions"

text \<open>\<^verbatim>\<open>validTransactions.slice(0, transactionLimit)\<close>\<close>

definition limitedTransactions :: "transaction list \<Rightarrow> nat \<Rightarrow> transaction list" where
  "limitedTransactions transactions limit = take limit (validTransactions transactions)"

text \<open>
  A JavaScript \<^verbatim>\<open>Set\<close> of strings iterates in insertion order and ignores a second
  insertion of the same value: a duplicate-free list that grows at its end.
\<close>

definition setAdd :: "string \<Rightarrow> string list \<Rightarrow> string list" where
  "setAdd a ids = (if a \<in> set ids then ids else ids @ [a])"

fun addEndpoints :: "string list \<Rightarrow> transaction list \<Rightarrow> string list" where
  "addEndpoints ids [] = ids"
| "addEndpoints ids (tx # txs) =
     (let ids1 = (if source tx \<noteq> [] then setAdd (source tx) ids else ids);
          ids2 = (if target tx \<noteq> [] then setAdd (target tx) ids1 else ids1)
      in addEndpoints ids2 txs)"

definition nodeIds :: "string \<Rightarrow> transaction list \<Rightarrow> string list" where
  "nodeIds focusAddress limited = addEndpoints (setAdd focusAddress []) limited"

definition newNode :: "string set \<Rightarrow> string \<Rightarrow> node" where
  "newNode exploredNodes i =
     \<lparr>node_id = i, explored = (i \<in> exploredNodes),
      node_x = None, node_y = None, node_fx = None, node_fy = None\<rparr>"

definition makeNodes :: "string set \<Rightarrow> string \<Rightarrow> transaction list \<Rightarrow> node list" where
  "makeNodes exploredNodes focusAddress limited =
     map (newNode exploredNodes) (nodeIds focusAddress limited)"

text \<open>\<^verbatim>\<open>nodes.forEach(node => nodeMap.set(node.id, node))\<close>\<close>

fun setAll :: "(string \<rightharpoonup> node) \<Rightarrow> node list \<Rightarrow> (string \<rightharpoonup> node)" where
  "setAll m [] = m"
| "setAll m (n # ns) = setAll (m(node_id n \<mapsto> n)) ns"

definition makeNodeMap :: "node list \<Rightarrow> (string \<rightharpoonup> node)" where
  "makeNodeMap nodes = setAll Map.empty nodes"

text \<open>
  The object literal of the primary pass. \<^verbatim>\<open>t.amount || 0.0001\<close> replaces a zero
  amount, the only falsy real number.
\<close>

definition makeLink :: "(string \<rightharpoonup> node) \<Rightarrow> string \<Rightarrow> transaction \<Rightarrow> link" where
  "makeLink nodeMap focusAddress t =
     \<lparr>link_source = map_option node_id (nodeMap (source t)),
      link_target = map_option node_id (nodeMap (target t)),
      link_value = (if amount t = 0 then 1 / 10000 else amount t),
      link_direction = (if source t = focusAddress then Outgoing else Incoming),
      link_transactionId = transactionId t\<rparr>"

definition hasBothEnds :: "(string \<rightharpoonup> node) \<Rightarrow> transaction \<Rightarrow> bool" where
  "hasBothEnds nodeMap t = (nodeMap (source t) \<noteq> None \<and> nodeMap (target t) \<noteq> None)"

definition primaryLinks :: "(string \<rightharpoonup> node) \<Rightarrow> string \<Rightarrow> transaction list \<Rightarrow> link list" where
  "primaryLinks nodeMap focusAddress limited =
     map (makeLink nodeMap focusAddress) (filter (hasBothEnds nodeMap) limited)"

subsection \<open>Fallback synthesis\<close>

fun addPeers :: "string \<Rightarrow> string list \<Rightarrow> transaction list \<Rightarrow> string list" where
  "addPeers focusAddress ids [] = ids"
| "addPeers focusAddress ids (tx # txs) =
     (let ids1 = (if source tx \<noteq> focusAddress then setAdd (source tx) ids else ids);
          ids2 = (if target tx \<noteq> focusAddress then setAdd (target tx) ids1 else ids1)
      in addPeers focusAddress ids2 txs)"

definition uniqueAddresses :: "string \<Rightarrow> transaction list \<Rightarrow> string list" where
  "uniqueAddresses focusAddress valid = addPeers focusAddress [] valid"

text \<open>\<^verbatim>\<open>txs.reduce((sum, tx) => sum + tx.amount, 0)\<close>\<close>

definition sumAmounts :: "transaction list \<Rightarrow> real" where
  "sumAmounts txs = foldl (\<lambda>sum tx. sum + amount tx) 0 txs"

definition directLinks ::
  "(string \<rightharpoonup> node) \<Rightarrow> string \<Rightarrow> transaction list \<Rightarrow> string \<Rightarrow> link list" where
  "directLinks nodeMap focusAddress valid address =
     (if nodeMap address = None \<or> nodeMap focusAddress = None then []
      else
        (let incomingTxs = filter (\<lambda>tx. source tx = address \<and> target tx = focusAddress) valid;
             outgoingTxs = filter (\<lambda>tx. source tx = focusAddress \<and> target tx = address) valid
         in (case incomingTxs of
               [] \<Rightarrow> []
             | tx # _ \<Rightarrow>
                 [\<lparr>link_source = map_option node_id (nodeMap address),
                   link_target = map_option node_id (nodeMap focusAddress),
                   link_value = sumAmounts incomingTxs,
                   link_direction = Incoming,
                   link_transactionId = transactionId tx\<rparr>])
          @ (case outgoingTxs of
               [] \<Rightarrow> []
             | tx # _ \<Rightarrow>
                 [\<lparr>link_source = map_option node_id (nodeMap focusAddress),
                   link_target = map_option node_id (nodeMap address),
                   link_value = sumAmounts outgoingTxs,
                   link_direction = Outgoing,
                   link_transactionId = transactionId tx\<rparr>])))"

definition fallbackLinks ::
  "(string \<rightharpoonup> node) \<Rightarrow> string \<Rightarrow> transaction list \<Rightarrow> link list" where
  "fallbackLinks nodeMap focusAddress valid =
     concat (map (directLinks nodeMap focusAddress valid) (uniqueAddresses focusAddress valid))"

subsection \<open>The builder\<close>

text \<open>
  The part of the rendering effect between the empty-input guard and the normalisation:
  either the message that \<^verbatim>\<open>setError\<close> receives, or the nodes and links given to the
  simulation.
\<close>

definition buildGraph ::
  "transaction list \<Rightarrow> string \<Rightarrow> string set \<Rightarrow> nat \<Rightarrow> graph_error + graph" where
  "buildGraph transactions focusAddress exploredNodes limit =
     (if length transactions = 0 then Inl NoTransactionData
      else
        (let valid = validTransactions transactions;
             limited = limitedTransactions transactions limit
         in if length limited = 0 then Inl NoValidTransactionData
            else
              (let nodes = makeNodes exploredNodes focusAddress limited;
                   nodeMap = makeNodeMap nodes;
                   links = primaryLinks nodeMap focusAddress limited
               in if length links = 0 then
                    (if length valid > 0 then
                       (let links' = links @ fallbackLinks nodeMap focusAddress valid
                        in if length links' = 0 then Inl NoValidConnections
                           else Inr \<lparr>graph_nodes = nodes, graph_links = links'\<rparr>)
                     else Inl NoValidConnections)
                  else Inr \<lparr>graph_nodes = nodes, graph_links = links\<rparr>)))"

section \<open>Normalisation of link values\<close>

text \<open>
  \<^verbatim>\<open>Math.max(...links.map(l => l.value))\<close> and its \<^verbatim>\<open>Math.min\<close> twin. They are taken
  after the guards, where \<^verbatim>\<open>links\<close> has an element; for the empty list the model
  gives \<open>None\<close>.
\<close>

definition maxValue :: "link list \<Rightarrow> real option" where
  "maxValue links =
     (case map link_value links of [] \<Rightarrow> None | v # vs \<Rightarrow> Some (foldl max v vs))"

definition minValue :: "link list \<Rightarrow> real option" where
  "minValue links =
     (case map link_value links of [] \<Rightarrow> None | v # vs \<Rightarrow> Some (foldl min v vs))"

text \<open>The closure \<^verbatim>\<open>normalizeValue\<close>, with the two captured constants as arguments.\<close>

definition normalizeValue :: "real \<Rightarrow> real \<Rightarrow> real \<Rightarrow> real" where
  "normalizeValue maxV minV v =
     (if maxV = minV then 2 else 1 + (v - minV) / (maxV - minV) * 4)"

text \<open>
  The closure is declared and not applied anywhere. The width a link is drawn with is the
  \<^verbatim>\<open>stroke-width\<close> attribute of its path,
  \<^verbatim>\<open>Math.min(3, Math.max(1, Math.log(d.value + 1)))\<close>, set when the path is made and
  again when the pointer leaves it; while the pointer is over the path or its label the
  attribute is \<^verbatim>\<open>Math.min(5, Math.max(2, Math.log(d.value + 1) * 1.5))\<close>.
  \<^verbatim>\<open>Math.log\<close> is the natural logarithm \<^term>\<open>ln\<close> for a positive argument.
\<close>

definition linkStrokeWidth :: "link \<Rightarrow> real" where
  "linkStrokeWidth d = min 3 (max 1 (ln (link_value d + 1)))"

definition linkHoverStrokeWidth :: "link \<Rightarrow> real" where
  "linkHoverStrokeWidth d = min 5 (max 2 (ln (link_value d + 1) * (3 / 2)))"

section \<open>The simulation\<close>

text \<open>
  The object returned by \<^verbatim>\<open>d3.forceSimulation\<close>: the node array it owns, the links of
  its link force, the viewport captured by the tick listener, and the cooling state.
\<close>

record simulation =
  sim_nodes :: "node list"
  sim_links :: "link list"
  sim_width :: real
  sim_height :: real
  sim_alpha :: real
  sim_alphaTarget :: real
  sim_running :: bool

text \<open>
  The force library is not part of the repository. Two parameters stand for it:
  \<open>place i\<close> is the initial position the library gives the \<open>i\<close>-th node, and
  \<open>forces nodes i\<close> is the position that one iteration of the configured forces (link,
  charge, centering, collision) and of the velocity integration gives the \<open>i\<close>-th node
  when nothing holds it. What the library documents about fixed positions is written out:
  a node whose \<^verbatim>\<open>fx\<close> (\<^verbatim>\<open>fy\<close>) is set is put back at that coordinate at the end of every
  iteration.
\<close>

definition initializeNodes :: "(nat \<Rightarrow> real \<times> real) \<Rightarrow> node list \<Rightarrow> node list" where
  "initializeNodes place nodes =
     map (\<lambda>i. let d = nodes ! i;
                  x0 = (case node_fx d of None \<Rightarrow> node_x d | Some v \<Rightarrow> Some v);
                  y0 = (case node_fy d of None \<Rightarrow> node_y d | Some v \<Rightarrow> Some v)
              in if x0 = None \<or> y0 = None
                 then d\<lparr>node_x := Some (fst (place i)), node_y := Some (snd (place i))\<rparr>
                 else d\<lparr>node_x := x0, node_y := y0\<rparr>)
         [0..<length nodes]"

definition forceTick :: "(node list \<Rightarrow> nat \<Rightarrow> real \<times> real) \<Rightarrow> node list \<Rightarrow> node list" where
  "forceTick forces nodes =
     map (\<lambda>i. let d = nodes ! i
              in d\<lparr>node_x := Some (case node_fx d of None \<Rightarrow> fst (forces nodes i) | Some v \<Rightarrow> v),
                   node_y := Some (case node_fy d of None \<Rightarrow> snd (forces nodes i) | Some v \<Rightarrow> v)\<rparr>)
         [0..<length nodes]"

text \<open>
  The body of the \<^verbatim>\<open>simulation.on("tick", ...)\<close> listener that writes to the nodes:
  \<^verbatim>\<open>d.x = Math.max(100, Math.min(width - 100, d.x))\<close> and the same for \<^verbatim>\<open>d.y\<close> with
  the height.
\<close>

definition tickHandler :: "real \<Rightarrow> real \<Rightarrow> node list \<Rightarrow> node list" where
  "tickHandler width height nodes =
     map (\<lambda>d. d\<lparr>node_x := map_option (\<lambda>v. max 100 (min (width - 100) v)) (node_x d),
                  node_y := map_option (\<lambda>v. max 100 (min (height - 100) v)) (node_y d)\<rparr>)
         nodes"

text \<open>
  One firing of the simulation's timer: the library's iteration, then the listener, then
  the library's test whether the simulation has cooled below its minimum (0.001, the
  default) and stops. The decay rate 0.1 is the configured \<^verbatim>\<open>alphaDecay(0.1)\<close>.
\<close>

definition simulationTick ::
  "(node list \<Rightarrow> nat \<Rightarrow> real \<times> real) \<Rightarrow> simulation \<Rightarrow> simulation" where
  "simulationTick forces sim =
     (let a = sim_alpha sim + (sim_alphaTarget sim - sim_alpha sim) * (1 / 10)
      in sim\<lparr>sim_nodes := tickHandler (sim_width sim) (sim_height sim)
                              (forceTick forces (sim_nodes sim)),
              sim_alpha := a,
              sim_running := (if a < 1 / 1000 then False else sim_running sim)\<rparr>)"

text \<open>Several ticks in a row, each with the forces of its moment.\<close>

fun runTicks :: "(node list \<Rightarrow> nat \<Rightarrow> real \<times> real) list \<Rightarrow> simulation \<Rightarrow> simulation" where
  "runTicks [] sim = sim"
| "runTicks (forces # rest) sim = runTicks rest (simulationTick forces sim)"

subsection \<open>Drag handlers\<close>

text \<open>
  The drag event carries the number of other active drags and the pointer position. The
  datum \<^verbatim>\<open>d\<close> bound to the dragged element is the node at index \<open>i\<close> of the
  simulation's array.
\<close>

record drag_event =
  ev_active :: nat
  ev_x :: real
  ev_y :: real

definition dragstarted :: "drag_event \<Rightarrow> nat \<Rightarrow> simulation \<Rightarrow> simulation" where
  "dragstarted event i sim =
     (let sim1 = (if ev_active event = 0
                  then sim\<lparr>sim_alphaTarget := 3 / 10, sim_running := True\<rparr> else sim);
          d = sim_nodes sim1 ! i
      in if i < length (sim_nodes sim1)
         then sim1\<lparr>sim_nodes := (sim_nodes sim1)[i := d\<lparr>node_fx := node_x d, node_fy := node_y d\<rparr>]\<rparr>
         else sim1)"

definition dragged :: "drag_event \<Rightarrow> nat \<Rightarrow> simulation \<Rightarrow> simulation" where
  "dragged event i sim =
     (let d = sim_nodes sim ! i
      in if i < length (sim_nodes sim)
         then sim\<lparr>sim_nodes :=
                    (sim_nodes sim)[i := d\<lparr>node_fx := Some (ev_x event), node_fy := Some (ev_y event)\<rparr>]\<rparr>
         else sim)"

text \<open>The two assignments that would release the node are commented out in the source.\<close>

definition dragended :: "drag_event \<Rightarrow> nat \<Rightarrow> simulation \<Rightarrow> simulation" where
  "dragended event i sim =
     (if ev_active event = 0 then sim\<lparr>sim_alphaTarget := 0\<rparr> else sim)"

section \<open>The rendering effect\<close>

record view_state =
  error :: "string option"
  isLoading :: bool
  simulationRef :: "simulation option"
  displayedTransactionCount :: nat
  totalTransactionCount :: nat

text \<open>\<^verbatim>\<open>if (simulationRef.current) simulationRef.current.stop()\<close>\<close>

definition stopSimulation :: "view_state \<Rightarrow> view_state" where
  "stopSimulation st =
     st\<lparr>simulationRef := map_option (\<lambda>sim. sim\<lparr>sim_running := False\<rparr>) (simulationRef st)\<rparr>"

definition simulationActive :: "view_state \<Rightarrow> bool" where
  "simulationActive st = (case simulationRef st of None \<Rightarrow> False | Some sim \<Rightarrow> sim_running sim)"

text \<open>
  \<^verbatim>\<open>d3.forceSimulation(nodes)\<close> with its forces, \<^verbatim>\<open>alphaTarget(0)\<close>, and the later
  \<^verbatim>\<open>simulation.alpha(1).restart()\<close>.
\<close>

definition startSimulation :: "(nat \<Rightarrow> real \<times> real) \<Rightarrow> real \<Rightarrow> real \<Rightarrow> graph \<Rightarrow> simulation" where
  "startSimulation place width height g =
     \<lparr>sim_nodes = initializeNodes place (graph_nodes g), sim_links = graph_links g,
      sim_width = width, sim_height = height,
      sim_alpha = 1, sim_alphaTarget = 0, sim_running = True\<rparr>"

text \<open>
  The component's markup renders the \<^verbatim>\<open>svg\<close> element, with \<^verbatim>\<open>ref={svgRef}\<close>, only
  in the branch of \<^verbatim>\<open>error ? ... : ...\<close> taken while \<^verbatim>\<open>error\<close> is falsy (null or the
  empty string); the container \<^verbatim>\<open>div\<close> with \<^verbatim>\<open>ref={containerRef}\<close> is rendered in
  both branches. So when an effect runs, \<^verbatim>\<open>svgRef.current\<close> is set exactly if the state
  the component was rendered from shows no error, and \<^verbatim>\<open>containerRef.current\<close> is set.
\<close>

definition svgMounted :: "view_state \<Rightarrow> bool" where
  "svgMounted st = (case error st of None \<Rightarrow> True | Some message \<Rightarrow> message = [])"

text \<open>
  The effect that draws the graph, in a container \<open>width\<close> pixels wide; the height is
  the constant 800. Its first statement,
  \<^verbatim>\<open>if (!svgRef.current || !containerRef.current) return\<close>, leaves the state as it is
  when the \<^verbatim>\<open>svg\<close> element is not mounted. The state is returned as the effect leaves
  it. The two exits of the connection guard return without resetting the loading flag.
\<close>

definition renderGraph ::
  "(nat \<Rightarrow> real \<times> real) \<Rightarrow> real \<Rightarrow> transaction list \<Rightarrow> string \<Rightarrow> string set \<Rightarrow> nat
     \<Rightarrow> view_state \<Rightarrow> view_state" where
  "renderGraph place width transactions focusAddress exploredNodes limit st =
     (if \<not> svgMounted st then st
      else
        (let st1 = stopSimulation (st\<lparr>isLoading := True\<rparr>);
             st2 = st1\<lparr>error := None\<rparr>
         in if length transactions = 0
            then st2\<lparr>error := Some (errorMessage NoTransactionData), isLoading := False\<rparr>
            else
              (let st3 = st2\<lparr>totalTransactionCount := length transactions,
                             displayedTransactionCount :=
                               length (limitedTransactions transactions limit)\<rparr>
               in case buildGraph transactions focusAddress exploredNodes limit of
                    Inl NoValidTransactionData \<Rightarrow>
                      st3\<lparr>error := Some (errorMessage NoValidTransactionData),
                          isLoading := False\<rparr>
                  | Inl e \<Rightarrow> st3\<lparr>error := Some (errorMessage e)\<rparr>
                  | Inr g \<Rightarrow>
                      st3\<lparr>simulationRef := Some (startSimulation place width 800 g)\<rparr>)))"

section \<open>The wallet route and the page that feed the component\<close>

text \<open>
  The component receives its \<^verbatim>\<open>transactions\<close> from the transactions page, which takes
  them from the response of the wallet route (\<^verbatim>\<open>src/app/api/wallet/route.ts\<close>). Of an
  enhanced transaction only the fields read on this way are kept. The route is entered
  with an \<^verbatim>\<open>address\<close> that passed its two guards, so the address is not empty.
\<close>

record enhanced_transaction =
  tx_from :: string
  tx_to :: string
  tx_hash :: string
  tx_timeStamp :: string
  valueInEth :: real
  formattedDate :: string
  tx_direction :: direction
  gasCostEth :: real

text \<open>
  \<^verbatim>\<open>String.prototype.toLowerCase\<close> on ASCII text; addresses are hexadecimal numerals
  with the prefix \<^verbatim>\<open>0x\<close>. A capital letter has a code from 65 to 90, where the bit of
  weight 32 is clear; setting it adds 32 and gives the small letter.
\<close>

fun lowerChar :: "char \<Rightarrow> char" where
  "lowerChar (Char b0 b1 b2 b3 b4 b5 b6 b7) =
     (if 65 \<le> (of_char (Char b0 b1 b2 b3 b4 b5 b6 b7) :: nat)
         \<and> (of_char (Char b0 b1 b2 b3 b4 b5 b6 b7) :: nat) \<le> 90
      then Char b0 b1 b2 b3 b4 True b6 b7
      else Char b0 b1 b2 b3 b4 b5 b6 b7)"

definition toLowerCase :: "string \<Rightarrow> string" where
  "toLowerCase s = map lowerChar s"

definition zeroAddress :: string where
  "zeroAddress = ''0x0000000000000000000000000000000000000000''"

text \<open>
  The callback that formats a transaction for the graph; \<open>None\<close> is the \<^verbatim>\<open>null\<close> that
  \<^verbatim>\<open>filter(Boolean)\<close> removes.
\<close>

definition graphTransaction :: "enhanced_transaction \<Rightarrow> transaction option" where
  "graphTransaction tx =
     (let sourceAddress = (if tx_from tx = [] then zeroAddress else tx_from tx);
          targetAddress = (if tx_to tx = [] then zeroAddress else tx_to tx)
      in if toLowerCase sourceAddress = toLowerCase targetAddress then None
         else Some \<lparr>source = sourceAddress, target = targetAddress,
                    amount = (if valueInEth tx = 0 then 1 / 10000 else valueInEth tx),
                    date = formattedDate tx, transactionId = tx_hash tx,
                    direction = tx_direction tx, gasCost = gasCostEth tx\<rparr>)"

definition graphTransactions :: "enhanced_transaction list \<Rightarrow> transaction list" where
  "graphTransactions result = List.map_filter graphTransaction result"

text \<open>The route's own set \<^verbatim>\<open>uniqueAddresses\<close>, of the addresses other than the focus.\<close>

fun addInteracting :: "string \<Rightarrow> string list \<Rightarrow> enhanced_transaction list \<Rightarrow> string list" where
  "addInteracting address ids [] = ids"
| "addInteracting address ids (tx # txs) =
     (let ids1 = (if tx_from tx \<noteq> [] \<and> toLowerCase (tx_from tx) \<noteq> toLowerCase address
                  then setAdd (tx_from tx) ids else ids);
          ids2 = (if tx_to tx \<noteq> [] \<and> toLowerCase (tx_to tx) \<noteq> toLowerCase address
                  then setAdd (tx_to tx) ids1 else ids1)
      in addInteracting address ids2 txs)"

definition interactingAddresses :: "string \<Rightarrow> enhanced_transaction list \<Rightarrow> string list" where
  "interactingAddresses address result = addInteracting address [] result"

definition incomingTxs ::
  "string \<Rightarrow> enhanced_transaction list \<Rightarrow> string \<Rightarrow> enhanced_transaction list" where
  "incomingTxs address result connectedAddress =
     filter (\<lambda>tx. toLowerCase (tx_from tx) = toLowerCase connectedAddress
                 \<and> toLowerCase (tx_to tx) = toLowerCase address) result"

definition outgoingTxs ::
  "string \<Rightarrow> enhanced_transaction list \<Rightarrow> string \<Rightarrow> enhanced_transaction list" where
  "outgoingTxs address result connectedAddress =
     filter (\<lambda>tx. toLowerCase (tx_from tx) = toLowerCase address
                 \<and> toLowerCase (tx_to tx) = toLowerCase connectedAddress) result"

text \<open>\<^verbatim>\<open>txs.reduce((sum, tx) => sum + tx.valueInEth, 0)\<close>\<close>

definition totalAmount :: "enhanced_transaction list \<Rightarrow> real" where
  "totalAmount txs = foldl (\<lambda>sum tx. sum + valueInEth tx) 0 txs"

text \<open>What one connected address adds to \<^verbatim>\<open>simplifiedGraphTransactions\<close>.\<close>

definition directConnections ::
  "string \<Rightarrow> enhanced_transaction list \<Rightarrow> string \<Rightarrow> transaction list" where
  "directConnections address result connectedAddress =
     (case incomingTxs address result connectedAddress of
        [] \<Rightarrow> []
      | tx # _ \<Rightarrow>
          [\<lparr>source = connectedAddress, target = address,
            amount = totalAmount (incomingTxs address result connectedAddress),
            date = formattedDate tx, transactionId = tx_hash tx,
            direction = Incoming, gasCost = 0\<rparr>])
     @ (case outgoingTxs address result connectedAddress of
        [] \<Rightarrow> []
      | tx # _ \<Rightarrow>
          [\<lparr>source = address, target = connectedAddress,
            amount = totalAmount (outgoingTxs address result connectedAddress),
            date = formattedDate tx, transactionId = tx_hash tx,
            direction = Outgoing, gasCost = 0\<rparr>])"

text \<open>
  The connection made from the first graph transaction when no address gave one. \<open>now\<close>
  is the clock reading \<^verbatim>\<open>new Date().toISOString()\<close>.
\<close>

definition firstConnection :: "string \<Rightarrow> string \<Rightarrow> transaction \<Rightarrow> transaction list" where
  "firstConnection now address firstTx =
     (if source firstTx \<noteq> target firstTx
      then [\<lparr>source = (if source firstTx = address then source firstTx else address),
             target = (if target firstTx = address then target firstTx else address),
             amount = (if amount firstTx = 0 then 1 / 10000 else amount firstTx),
             date = (if date firstTx = [] then now else date firstTx),
             transactionId =
               (if transactionId firstTx = [] then ''unknown'' else transactionId firstTx),
             direction = direction firstTx,
             gasCost = gasCost firstTx\<rparr>]
      else [])"

definition simplifiedGraphTransactions ::
  "string \<Rightarrow> string \<Rightarrow> enhanced_transaction list \<Rightarrow> transaction list" where
  "simplifiedGraphTransactions now address result =
     (let simplified =
            concat (map (directConnections address result) (interactingAddresses address result))
      in case graphTransactions result of
           [] \<Rightarrow> simplified
         | firstTx # _ \<Rightarrow>
             (if length simplified = 0 then simplified @ firstConnection now address firstTx
              else simplified))"

text \<open>The field \<^verbatim>\<open>graphTransactions\<close> of the route's response.\<close>

definition responseGraphTransactions ::
  "string \<Rightarrow> string \<Rightarrow> enhanced_transaction list \<Rightarrow> transaction list" where
  "responseGraphTransactions now address result =
     (if length (simplifiedGraphTransactions now address result) > 0
      then simplifiedGraphTransactions now address result
      else graphTransactions result)"

text \<open>
  The page's own format of a transaction; \<open>localeString\<close> renders a time stamp when the
  formatted date is missing.
\<close>

definition formattedTransaction ::
  "(string \<Rightarrow> string) \<Rightarrow> enhanced_transaction \<Rightarrow> transaction" where
  "formattedTransaction localeString tx =
     \<lparr>source = tx_from tx, target = tx_to tx, amount = valueInEth tx,
      date = (if formattedDate tx = [] then localeString (tx_timeStamp tx) else formattedDate tx),
      transactionId = tx_hash tx, direction = tx_direction tx, gasCost = gasCostEth tx\<rparr>"

text \<open>
  The value the page's search handler stores, after a fetch from the route, in its state
  \<^verbatim>\<open>graphTransactions\<close>, which
  is the \<^verbatim>\<open>transactions\<close> property of the component; the focus address of the
  component is the address that was searched.
\<close>

definition pageGraphTransactions ::
  "string \<Rightarrow> (string \<Rightarrow> string) \<Rightarrow> string \<Rightarrow> enhanced_transaction list \<Rightarrow> transaction list" where
  "pageGraphTransactions now localeString address result =
     (if length result > 0
      then (if length (responseGraphTransactions now address result) > 0
            then responseGraphTransactions now address result
            else map (formattedTransaction localeString) result)
      else [])"

definition walletGraph ::
  "string \<Rightarrow> (string \<Rightarrow> string) \<Rightarrow> string \<Rightarrow> enhanced_transaction list \<Rightarrow> string set \<Rightarrow> nat
     \<Rightarrow> graph_error + graph" where
  "walletGraph now localeString address result exploredNodes limit =
     buildGraph (pageGraphTransactions now localeString address result)
       address exploredNodes limit"

section \<open>Facts about the builder\<close>

lemma set_setAdd: "set (setAdd a ids) = insert a (set ids)"
  by (auto simp: setAdd_def)

lemma distinct_setAdd: "distinct ids \<Longrightarrow> distinct (setAdd a ids)"
  by (simp add: setAdd_def)

lemma set_addEndpoints:
  "set (addEndpoints ids txs) =
     set ids \<union> {source t |t. t \<in> set txs \<and> source t \<noteq> []}
             \<union> {target t |t. t \<in> set txs \<and> target t \<noteq> []}"
  by (induction txs arbitrary: ids) (auto simp: Let_def set_setAdd)

lemma distinct_addEndpoints: "distinct ids \<Longrightarrow> distinct (addEndpoints ids txs)"
  by (induction txs arbitrary: ids) (simp_all add: Let_def distinct_setAdd)

lemma distinct_nodeIds: "distinct (nodeIds focusAddress limited)"
  by (simp add: nodeIds_def distinct_addEndpoints distinct_setAdd)

lemma endpoints_in_nodeIds:
  assumes "t \<in> set limited" and "isValid t"
  shows "source t \<in> set (nodeIds focusAddress limited)"
    and "target t \<in> set (nodeIds focusAddress limited)"
  using assms by (auto simp: nodeIds_def set_addEndpoints isValid_def)

lemma setAll_lookup:
  "map_option node_id (setAll m ns k) =
     (if k \<in> node_id ` set ns then Some k else map_option node_id (m k))"
  by (induction ns arbitrary: m) auto

lemma makeNodeMap_lookup:
  "map_option node_id (makeNodeMap nodes k) = (if k \<in> node_id ` set nodes then Some k else None)"
  by (simp add: makeNodeMap_def setAll_lookup)

lemma node_id_makeNodes:
  "map node_id (makeNodes exploredNodes focusAddress limited) = nodeIds focusAddress limited"
  by (simp add: makeNodes_def newNode_def comp_def)

lemma node_ids_makeNodes:
  "node_id ` set (makeNodes exploredNodes focusAddress limited) = set (nodeIds focusAddress limited)"
  using node_id_makeNodes [of exploredNodes focusAddress limited]
  by (metis set_map)

lemma limited_valid: "t \<in> set (limitedTransactions transactions limit) \<Longrightarrow> isValid t"
  by (auto simp: limitedTransactions_def validTransactions_def dest: in_set_takeD)

lemma nodeMap_endpoints:
  assumes "t \<in> set limited" and "isValid t"
  shows "map_option node_id (makeNodeMap (makeNodes e f limited) (source t)) = Some (source t)"
    and "map_option node_id (makeNodeMap (makeNodes e f limited) (target t)) = Some (target t)"
  using endpoints_in_nodeIds [OF assms, of f]
  by (simp_all add: makeNodeMap_lookup node_ids_makeNodes)

lemma hasBothEnds_limited:
  assumes "t \<in> set limited" and "isValid t"
  shows "hasBothEnds (makeNodeMap (makeNodes e f limited)) t"
  using nodeMap_endpoints [OF assms, of e f] by (auto simp: hasBothEnds_def)

lemma filter_hasBothEnds:
  assumes "\<forall>t\<in>set limited. isValid t"
  shows "filter (hasBothEnds (makeNodeMap (makeNodes e f limited))) limited = limited"
  using assms by (simp add: hasBothEnds_limited filter_id_conv)

lemma primaryLinks_limited:
  "primaryLinks (makeNodeMap (makeNodes e f (limitedTransactions txs n))) f
       (limitedTransactions txs n) =
     map (makeLink (makeNodeMap (makeNodes e f (limitedTransactions txs n))) f)
       (limitedTransactions txs n)"
  by (simp add: primaryLinks_def filter_hasBothEnds limited_valid)

lemma buildGraph_cases:
  "buildGraph txs f e n =
     (if txs = [] then Inl NoTransactionData
      else if limitedTransactions txs n = [] then Inl NoValidTransactionData
      else Inr \<lparr>graph_nodes = makeNodes e f (limitedTransactions txs n),
                graph_links = primaryLinks (makeNodeMap (makeNodes e f (limitedTransactions txs n))) f
                                (limitedTransactions txs n)\<rparr>)"
  unfolding buildGraph_def Let_def
  by (simp add: primaryLinks_limited)

lemma makeLink_limited:
  assumes "t \<in> set limited" and "isValid t"
  shows "makeLink (makeNodeMap (makeNodes e f limited)) f t =
           \<lparr>link_source = Some (source t), link_target = Some (target t),
            link_value = (if amount t = 0 then 1 / 10000 else amount t),
            link_direction = (if source t = f then Outgoing else Incoming),
            link_transactionId = transactionId t\<rparr>"
  using nodeMap_endpoints [OF assms, of e f] by (simp add: makeLink_def)

lemma primaryLinks_explicit:
  "primaryLinks (makeNodeMap (makeNodes e f (limitedTransactions txs n))) f
       (limitedTransactions txs n) =
     map (\<lambda>t. \<lparr>link_source = Some (source t), link_target = Some (target t),
                 link_value = (if amount t = 0 then 1 / 10000 else amount t),
                 link_direction = (if source t = f then Outgoing else Incoming),
                 link_transactionId = transactionId t\<rparr>)
       (limitedTransactions txs n)"
  by (simp add: primaryLinks_limited makeLink_limited limited_valid)



lemmas build_defs =
  buildGraph_def limitedTransactions_def validTransactions_def isValid_def makeNodes_def
  nodeIds_def setAdd_def newNode_def makeNodeMap_def primaryLinks_def hasBothEnds_def
  makeLink_def



lemma buildGraph_all_valid:
  assumes "txs \<noteq> []" and "\<forall>r\<in>set txs. isValid r" and "length txs \<le> limit"
  shows "buildGraph txs focusAddress exploredNodes limit
           = Inr \<lparr>graph_nodes = makeNodes exploredNodes focusAddress txs,
                  graph_links =
                    map (\<lambda>t. \<lparr>link_source = Some (source t), link_target = Some (target t),
                                link_value = (if amount t = 0 then 1 / 10000 else amount t),
                                link_direction =
                                  (if source t = focusAddress then Outgoing else Incoming),
                                link_transactionId = transactionId t\<rparr>) txs\<rparr>"
proof -
  have l: "limitedTransactions txs limit = txs"
    using assms(2,3) by (simp add: limitedTransactions_def validTransactions_def filter_id_conv)
  show ?thesis
    using assms(1) primaryLinks_explicit [of exploredNodes focusAddress txs limit]
    by (simp add: buildGraph_cases l)
qed

lemma built_link_values_positive:
  assumes "buildGraph transactions focusAddress exploredNodes limit = Inr g"
    and "\<forall>t\<in>set transactions. 0 \<le> amount t"
    and "a \<in> set (graph_links g)"
  shows "0 < link_value a"
proof -
  let ?limited = "limitedTransactions transactions limit"
  from assms(1) have "graph_links g =
           map (\<lambda>t. \<lparr>link_source = Some (source t), link_target = Some (target t),
                       link_value = (if amount t = 0 then 1 / 10000 else amount t),
                       link_direction = (if source t = focusAddress then Outgoing else Incoming),
                       link_transactionId = transactionId t\<rparr>) ?limited"
    by (auto simp: buildGraph_cases primaryLinks_explicit split: if_splits)
  with assms(3) obtain t where t: "t \<in> set ?limited"
    and a: "link_value a = (if amount t = 0 then 1 / 10000 else amount t)"
    by auto
  from t have "t \<in> set transactions"
    by (auto simp: limitedTransactions_def validTransactions_def dest: in_set_takeD)
  with assms(2) have "0 \<le> amount t" by blast
  with a show ?thesis by (cases "amount t = 0") simp_all
qed

section \<open>Facts about the drawn width\<close>

lemma exp_three_bounds: "(8::real) \<le> exp 3" "exp 3 \<le> (27::real)"
proof -
  have e3: "exp (3::real) = exp 1 ^ 3"
    using exp_of_nat_mult [of 3 "1::real"] by simp
  have "(2::real) \<le> exp 1" using exp_ge_add_one_self [of "1::real"] by simp
  then have "(2::real) ^ 3 \<le> exp 1 ^ 3" by (rule power_mono) simp
  then show "(8::real) \<le> exp 3" by (simp add: e3)
  have "exp (1::real) ^ 3 \<le> 3 ^ 3" using exp_le by (rule power_mono) simp
  then show "exp 3 \<le> (27::real)" by (simp add: e3)
qed

lemma ln_small: "0 < x \<Longrightarrow> x \<le> 2 \<Longrightarrow> ln x \<le> (1::real)"
  using ln_le_minus_one [of x] by simp

lemma ln_mid_lower: "3 \<le> x \<Longrightarrow> (1::real) \<le> ln x"
proof -
  assume x: "3 \<le> x"
  then have "exp 1 \<le> x" using exp_le by simp
  then show ?thesis using x by (simp add: ln_ge_iff)
qed

lemma ln_mid_upper: "0 < x \<Longrightarrow> x \<le> 8 \<Longrightarrow> ln x \<le> (3::real)"
proof -
  assume x: "0 < x" "x \<le> 8"
  then have "x \<le> exp 3" using exp_three_bounds(1) by simp
  then have "ln x \<le> ln (exp 3)" using x(1) by (intro ln_mono) simp_all
  then show ?thesis by simp
qed

lemma ln_large: "27 \<le> x \<Longrightarrow> (3::real) \<le> ln x"
proof -
  assume x: "27 \<le> x"
  then have "exp 3 \<le> x" using exp_three_bounds(2) by simp
  then show ?thesis using x by (simp add: ln_ge_iff)
qed

lemma linkStrokeWidth_range: "1 \<le> linkStrokeWidth d \<and> linkStrokeWidth d \<le> 3"
  by (simp add: linkStrokeWidth_def)

lemma linkHoverStrokeWidth_range: "2 \<le> linkHoverStrokeWidth d \<and> linkHoverStrokeWidth d \<le> 5"
  by (simp add: linkHoverStrokeWidth_def)

lemma linkStrokeWidth_mono:
  assumes "0 \<le> link_value a" and "link_value a \<le> link_value b"
  shows "linkStrokeWidth a \<le> linkStrokeWidth b"
proof -
  have "ln (link_value a + 1) \<le> ln (link_value b + 1)"
    using assms by (intro ln_mono) simp_all
  then show ?thesis
    by (simp add: linkStrokeWidth_def min_def max_def)
qed

lemma linkStrokeWidth_cases:
  assumes "0 \<le> link_value a"
  shows "link_value a \<le> 1 \<Longrightarrow> linkStrokeWidth a = 1"
    and "26 \<le> link_value a \<Longrightarrow> linkStrokeWidth a = 3"
    and "2 \<le> link_value a \<Longrightarrow> link_value a \<le> 7 \<Longrightarrow> linkStrokeWidth a = ln (link_value a + 1)"
proof -
  show "linkStrokeWidth a = 1" if "link_value a \<le> 1"
    using ln_small [of "link_value a + 1"] assms that
    by (simp add: linkStrokeWidth_def max_def min_def)
  show "linkStrokeWidth a = 3" if "26 \<le> link_value a"
    using ln_large [of "link_value a + 1"] that
    by (simp add: linkStrokeWidth_def max_def min_def)
  show "linkStrokeWidth a = ln (link_value a + 1)" if "2 \<le> link_value a" "link_value a \<le> 7"
    using ln_mid_lower [of "link_value a + 1"] ln_mid_upper [of "link_value a + 1"] that
    by (simp add: linkStrokeWidth_def max_def min_def)
qed

section \<open>Facts about the wallet route\<close>

lemma setAdd_invariant:
  assumes "distinct ids" and "\<forall>p\<in>set ids. Q p" and "Q a"
  shows "distinct (setAdd a ids) \<and> (\<forall>p\<in>set (setAdd a ids). Q p)"
  using assms by (simp add: setAdd_def)

lemma addInteracting_invariant:
  assumes "distinct ids"
    and "\<forall>p\<in>set ids. p \<noteq> [] \<and> toLowerCase p \<noteq> toLowerCase address"
  shows "distinct (addInteracting address ids txs)
       \<and> (\<forall>p\<in>set (addInteracting address ids txs).
             p \<noteq> [] \<and> toLowerCase p \<noteq> toLowerCase address)"
  using assms
proof (induction txs arbitrary: ids)
  case Nil
  then show ?case by simp
next
  case (Cons tx txs)
  define ids1 where "ids1 =
    (if tx_from tx \<noteq> [] \<and> toLowerCase (tx_from tx) \<noteq> toLowerCase address
     then setAdd (tx_from tx) ids else ids)"
  define ids2 where "ids2 =
    (if tx_to tx \<noteq> [] \<and> toLowerCase (tx_to tx) \<noteq> toLowerCase address
     then setAdd (tx_to tx) ids1 else ids1)"
  have inv1: "distinct ids1
      \<and> (\<forall>p\<in>set ids1. p \<noteq> [] \<and> toLowerCase p \<noteq> toLowerCase address)"
  proof (cases "tx_from tx \<noteq> [] \<and> toLowerCase (tx_from tx) \<noteq> toLowerCase address")
    case True
    then have "ids1 = setAdd (tx_from tx) ids" by (simp add: ids1_def)
    then show ?thesis
      using setAdd_invariant [OF Cons.prems, of "tx_from tx"] True by simp
  next
    case False
    then have "ids1 = ids" unfolding ids1_def by (simp only: if_False)
    then show ?thesis using Cons.prems by simp
  qed
  have inv2: "distinct ids2
      \<and> (\<forall>p\<in>set ids2. p \<noteq> [] \<and> toLowerCase p \<noteq> toLowerCase address)"
  proof (cases "tx_to tx \<noteq> [] \<and> toLowerCase (tx_to tx) \<noteq> toLowerCase address")
    case True
    then have "ids2 = setAdd (tx_to tx) ids1" by (simp add: ids2_def)
    moreover from inv1 have d1: "distinct ids1"
      and q1: "\<forall>p\<in>set ids1. p \<noteq> [] \<and> toLowerCase p \<noteq> toLowerCase address"
      by simp_all
    ultimately show ?thesis
      using setAdd_invariant [OF d1 q1, of "tx_to tx"] True by simp
  next
    case False
    then have "ids2 = ids1" unfolding ids2_def by (simp only: if_False)
    then show ?thesis using inv1 by simp
  qed
  have step: "addInteracting address ids (tx # txs) = addInteracting address ids2 txs"
    by (simp only: addInteracting.simps Let_def ids1_def ids2_def)
  show ?case
    unfolding step using inv2 by (intro Cons.IH) simp_all
qed

lemma interactingAddresses_props:
  "distinct (interactingAddresses address result)"
  "p \<in> set (interactingAddresses address result) \<Longrightarrow> p \<noteq> [] \<and> p \<noteq> address"
  using addInteracting_invariant [of "[]" address result]
  by (auto simp: interactingAddresses_def)

lemma directConnections_outgoing:
  assumes "q \<noteq> address"
  shows "filter (\<lambda>r. source r = address \<and> target r = p) (directConnections address result q)
           = (if q = p then
                (case outgoingTxs address result p of
                   [] \<Rightarrow> []
                 | tx # _ \<Rightarrow>
                     [\<lparr>source = address, target = p,
                       amount = totalAmount (outgoingTxs address result p),
                       date = formattedDate tx, transactionId = tx_hash tx,
                       direction = Outgoing, gasCost = 0\<rparr>])
              else [])"
proof (cases "q = p")
  case True
  with assms have "p \<noteq> address" by simp
  then show ?thesis
    unfolding True directConnections_def
    by (simp split: list.split)
next
  case False
  then show ?thesis
    using assms unfolding directConnections_def
    by (simp split: list.split)
qed

lemma directConnections_incoming:
  assumes "q \<noteq> address"
  shows "filter (\<lambda>r. source r = p \<and> target r = address) (directConnections address result q)
           = (if q = p then
                (case incomingTxs address result p of
                   [] \<Rightarrow> []
                 | tx # _ \<Rightarrow>
                     [\<lparr>source = p, target = address,
                       amount = totalAmount (incomingTxs address result p),
                       date = formattedDate tx, transactionId = tx_hash tx,
                       direction = Incoming, gasCost = 0\<rparr>])
              else [])"
proof (cases "q = p")
  case True
  with assms have "p \<noteq> address" by simp
  then show ?thesis
    unfolding True directConnections_def
    by (simp split: list.split)
next
  case False
  then show ?thesis
    using assms unfolding directConnections_def
    by (simp split: list.split)
qed

lemma concat_filter_single:
  assumes "distinct ps" and "\<forall>q\<in>set ps. filter P (f q) = (if q = p then xs else [])"
  shows "filter P (concat (map f ps)) = (if p \<in> set ps then xs else [])"
  using assms by (induction ps) auto

lemma directConnections_valid:
  assumes "address \<noteq> []" and "q \<noteq> []" and "q \<noteq> address"
    and "r \<in> set (directConnections address result q)"
  shows "isValid r"
proof -
  have "(source r = q \<and> target r = address) \<or> (source r = address \<and> target r = q)"
    using assms(4)
    by (cases "incomingTxs address result q"; cases "outgoingTxs address result q")
       (auto simp: directConnections_def)
  then show ?thesis using assms(1-3) by (auto simp: isValid_def)
qed

lemma connections_outgoing:
  "filter (\<lambda>r. source r = address \<and> target r = p)
     (concat (map (directConnections address result) (interactingAddresses address result)))
   = (if p \<in> set (interactingAddresses address result) then
        (case outgoingTxs address result p of
           [] \<Rightarrow> []
         | tx # _ \<Rightarrow>
             [\<lparr>source = address, target = p,
               amount = totalAmount (outgoingTxs address result p),
               date = formattedDate tx, transactionId = tx_hash tx,
               direction = Outgoing, gasCost = 0\<rparr>])
      else [])"
  by (rule concat_filter_single)
     (simp_all add: interactingAddresses_props directConnections_outgoing)

lemma connections_incoming:
  "filter (\<lambda>r. source r = p \<and> target r = address)
     (concat (map (directConnections address result) (interactingAddresses address result)))
   = (if p \<in> set (interactingAddresses address result) then
        (case incomingTxs address result p of
           [] \<Rightarrow> []
         | tx # _ \<Rightarrow>
             [\<lparr>source = p, target = address,
               amount = totalAmount (incomingTxs address result p),
               date = formattedDate tx, transactionId = tx_hash tx,
               direction = Incoming, gasCost = 0\<rparr>])
      else [])"
  by (rule concat_filter_single)
     (simp_all add: interactingAddresses_props directConnections_incoming)

lemma connections_valid:
  assumes "address \<noteq> []"
    and "r \<in> set (concat (map (directConnections address result)
                         (interactingAddresses address result)))"
  shows "isValid r"
proof -
  from assms(2) obtain q where q: "q \<in> set (interactingAddresses address result)"
    and r: "r \<in> set (directConnections address result q)"
    by auto
  from q have "q \<noteq> []" "q \<noteq> address"
    using interactingAddresses_props(2) [of q address result] by simp_all
  with assms(1) r show ?thesis by (intro directConnections_valid [of address q r result])
qed

lemma page_passes_connections:
  assumes "concat (map (directConnections address result)
             (interactingAddresses address result)) \<noteq> []"
  shows "pageGraphTransactions now localeString address result
           = concat (map (directConnections address result)
               (interactingAddresses address result))"
proof -
  define s where "s = concat (map (directConnections address result)
               (interactingAddresses address result))"
  have ne: "s \<noteq> []" using assms unfolding s_def .
  have "result \<noteq> []"
  proof
    assume "result = []"
    then have "s = []" by (simp add: s_def interactingAddresses_def)
    with ne show False by simp
  qed
  moreover have "simplifiedGraphTransactions now address result = s"
    unfolding simplifiedGraphTransactions_def Let_def s_def [symmetric]
    using ne by (cases "graphTransactions result") simp_all
  ultimately have "pageGraphTransactions now localeString address result = s"
    using ne by (simp add: pageGraphTransactions_def responseGraphTransactions_def)
  then show ?thesis by (simp only: s_def)
qed

section \<open>Facts about ticks and drags\<close>

lemma length_forceTick: "length (forceTick forces nodes) = length nodes"
  by (simp add: forceTick_def)

lemma length_tickHandler: "length (tickHandler w h nodes) = length nodes"
  by (simp add: tickHandler_def)

lemma length_simulationTick: "length (sim_nodes (simulationTick forces sim)) = length (sim_nodes sim)"
  by (simp add: simulationTick_def Let_def length_tickHandler length_forceTick)

lemma size_simulationTick:
  "sim_width (simulationTick forces sim) = sim_width sim"
  "sim_height (simulationTick forces sim) = sim_height sim"
  by (simp_all add: simulationTick_def Let_def)

lemma simulationTick_nth:
  assumes "i < length (sim_nodes sim)"
  shows "sim_nodes (simulationTick forces sim) ! i =
           (sim_nodes sim ! i)
             \<lparr>node_x := Some (max 100 (min (sim_width sim - 100)
                  (case node_fx (sim_nodes sim ! i) of
                     None \<Rightarrow> fst (forces (sim_nodes sim) i) | Some v \<Rightarrow> v))),
              node_y := Some (max 100 (min (sim_height sim - 100)
                  (case node_fy (sim_nodes sim ! i) of
                     None \<Rightarrow> snd (forces (sim_nodes sim) i) | Some v \<Rightarrow> v)))\<rparr>"
  using assms
  by (simp add: simulationTick_def Let_def tickHandler_def forceTick_def)

lemma simulationTick_fixed:
  assumes "i < length (sim_nodes sim)"
  shows "node_fx (sim_nodes (simulationTick forces sim) ! i) = node_fx (sim_nodes sim ! i)"
    and "node_fy (sim_nodes (simulationTick forces sim) ! i) = node_fy (sim_nodes sim ! i)"
  by (simp_all add: simulationTick_nth [OF assms])

lemma runTicks_snoc: "runTicks (fs @ [f]) sim = simulationTick f (runTicks fs sim)"
  by (induction fs arbitrary: sim) simp_all

lemma length_runTicks: "length (sim_nodes (runTicks fs sim)) = length (sim_nodes sim)"
  by (induction fs arbitrary: sim) (simp_all add: length_simulationTick)

lemma size_runTicks:
  "sim_width (runTicks fs sim) = sim_width sim"
  "sim_height (runTicks fs sim) = sim_height sim"
  by (induction fs arbitrary: sim) (simp_all add: size_simulationTick)

lemma runTicks_fixed:
  assumes "i < length (sim_nodes sim)"
  shows "node_fx (sim_nodes (runTicks fs sim) ! i) = node_fx (sim_nodes sim ! i)
       \<and> node_fy (sim_nodes (runTicks fs sim) ! i) = node_fy (sim_nodes sim ! i)"
  using assms
  by (induction fs arbitrary: sim) (simp_all add: length_simulationTick simulationTick_fixed)

lemma runTicks_pinned_position:
  assumes "i < length (sim_nodes sim)" and "fs \<noteq> []"
    and "node_fx (sim_nodes sim ! i) = Some px" and "node_fy (sim_nodes sim ! i) = Some py"
  shows "node_x (sim_nodes (runTicks fs sim) ! i) = Some (max 100 (min (sim_width sim - 100) px))
       \<and> node_y (sim_nodes (runTicks fs sim) ! i) = Some (max 100 (min (sim_height sim - 100) py))"
proof -
  from assms(2) obtain gs f where fs: "fs = gs @ [f]"
    by (cases fs rule: rev_cases) auto
  let ?s = "runTicks gs sim"
  have i: "i < length (sim_nodes ?s)" using assms(1) by (simp add: length_runTicks)
  have "node_fx (sim_nodes ?s ! i) = Some px" "node_fy (sim_nodes ?s ! i) = Some py"
    using runTicks_fixed [OF assms(1), of gs] assms(3,4) by simp_all
  then show ?thesis
    by (simp add: fs runTicks_snoc simulationTick_nth [OF i] size_runTicks)
qed

lemma dragged_nodes:
  assumes "i < length (sim_nodes sim)"
  shows "node_fx (sim_nodes (dragged event i sim) ! i) = Some (ev_x event)"
    and "node_fy (sim_nodes (dragged event i sim) ! i) = Some (ev_y event)"
    and "length (sim_nodes (dragged event i sim)) = length (sim_nodes sim)"
    and "sim_width (dragged event i sim) = sim_width sim"
    and "sim_height (dragged event i sim) = sim_height sim"
  using assms by (simp_all add: dragged_def Let_def)

lemma dragended_frame:
  "sim_nodes (dragended event i sim) = sim_nodes sim"
  "sim_width (dragended event i sim) = sim_width sim"
  "sim_height (dragended event i sim) = sim_height sim"
  by (simp_all add: dragended_def)

section \<open>Error guards\<close>

text \<open>
  Claim C3. For the empty transaction list the build fails with the error for missing
  transaction data, whose user-visible message is "No transaction data available to
  display in the graph.". The effect starts no simulation: the simulation it leaves is the
  one it found, at most stopped. Where the body of the effect runs, which is where no error
  is on display and the svg element is therefore mounted, the message is set and no
  simulation is active afterwards; where an error is on display the effect returns at its
  first statement and the state stays as it was.
\<close>

theorem empty_input_no_transaction_data:
  "buildGraph [] focusAddress exploredNodes limit = Inl NoTransactionData
   \<and> errorMessage NoTransactionData = ''No transaction data available to display in the graph.''
   \<and> (simulationRef (renderGraph place width [] focusAddress exploredNodes limit st)
         = simulationRef st
       \<or> simulationRef (renderGraph place width [] focusAddress exploredNodes limit st)
         = map_option (\<lambda>sim. sim\<lparr>sim_running := False\<rparr>) (simulationRef st))
   \<and> (svgMounted st \<longrightarrow>
         error (renderGraph place width [] focusAddress exploredNodes limit st)
           = Some ''No transaction data available to display in the graph.''
       \<and> simulationActive (renderGraph place width [] focusAddress exploredNodes limit st)
           = False)
   \<and> (\<not> svgMounted st \<longrightarrow>
         renderGraph place width [] focusAddress exploredNodes limit st = st)"
  by (cases "simulationRef st")
     (simp_all add: buildGraph_def renderGraph_def stopSimulation_def simulationActive_def)

theorem empty_input_no_transaction_data_witness:
  "svgMounted \<lparr>error = None, isLoading = False, simulationRef = None,
         displayedTransactionCount = 0, totalTransactionCount = 0\<rparr>
   \<and> buildGraph [] ''A'' {''A''} 50 = Inl NoTransactionData
   \<and> error (renderGraph (\<lambda>i. (0, 0)) 1000 [] ''A'' {''A''} 50
        \<lparr>error = None, isLoading = False, simulationRef = None,
         displayedTransactionCount = 0, totalTransactionCount = 0\<rparr>)
       = Some ''No transaction data available to display in the graph.''
   \<and> simulationActive (renderGraph (\<lambda>i. (0, 0)) 1000 [] ''A'' {''A''} 50
        \<lparr>error = None, isLoading = False, simulationRef = None,
         displayedTransactionCount = 0, totalTransactionCount = 0\<rparr>) = False"
proof -
  let ?st = "\<lparr>error = None, isLoading = False, simulationRef = None,
         displayedTransactionCount = 0, totalTransactionCount = 0\<rparr>"
  have h: "svgMounted ?st" by (simp add: svgMounted_def)
  show ?thesis
    using h empty_input_no_transaction_data [of "''A''" "{''A''}" 50 "\<lambda>i. (0, 0)" 1000 ?st]
    by blast
qed

text \<open>
  Claim C4, as the code has it. A non-empty list whose every record has the same source
  and target loses all its records at the validity filter. The guard on the empty limited
  list then ends the build with an error of its own, whose message is "No valid
  transaction data found. The transactions may be missing source or target addresses.":
  it is not the error of the empty input, and no node or link is made. The effect starts
  no simulation, and where its body runs (no error on display) it sets this message;
  where an error is on display the state stays as it was.
\<close>

theorem self_referential_only_fails_at_validity_guard:
  assumes "transactions \<noteq> []" and "\<forall>t\<in>set transactions. source t = target t"
  shows "validTransactions transactions = []
       \<and> buildGraph transactions focusAddress exploredNodes limit = Inl NoValidTransactionData
       \<and> buildGraph transactions focusAddress exploredNodes limit \<noteq> Inl NoTransactionData
       \<and> errorMessage NoValidTransactionData
           = ''No valid transaction data found. The transactions may be missing source or target addresses.''
       \<and> (simulationRef (renderGraph place width transactions focusAddress exploredNodes limit st)
             = simulationRef st
           \<or> simulationRef (renderGraph place width transactions focusAddress exploredNodes limit st)
             = map_option (\<lambda>sim. sim\<lparr>sim_running := False\<rparr>) (simulationRef st))
       \<and> (svgMounted st \<longrightarrow>
             error (renderGraph place width transactions focusAddress exploredNodes limit st)
               = Some ''No valid transaction data found. The transactions may be missing source or target addresses.''
           \<and> simulationActive
               (renderGraph place width transactions focusAddress exploredNodes limit st)
               = False)
       \<and> (\<not> svgMounted st \<longrightarrow>
             renderGraph place width transactions focusAddress exploredNodes limit st = st)"
proof -
  have v: "validTransactions transactions = []"
    using assms(2) by (auto simp: validTransactions_def isValid_def filter_empty_conv)
  then have l: "limitedTransactions transactions limit = []"
    by (simp add: limitedTransactions_def)
  have b: "buildGraph transactions focusAddress exploredNodes limit = Inl NoValidTransactionData"
    using assms(1) l by (simp add: buildGraph_cases)
  show ?thesis
    using v b assms(1)
    by (cases "simulationRef st")
       (simp_all add: renderGraph_def stopSimulation_def simulationActive_def)
qed

theorem self_referential_only_fails_at_validity_guard_witness:
  "[\<lparr>source = ''A'', target = ''A'', amount = 1, date = ''d'', transactionId = ''t1'',
      direction = Outgoing, gasCost = 0\<rparr>] \<noteq> []
   \<and> source \<lparr>source = ''A'', target = ''A'', amount = 1, date = ''d'', transactionId = ''t1'',
        direction = Outgoing, gasCost = 0\<rparr>
     = target \<lparr>source = ''A'', target = ''A'', amount = 1, date = ''d'', transactionId = ''t1'',
        direction = Outgoing, gasCost = 0\<rparr>
   \<and> svgMounted \<lparr>error = None, isLoading = False, simulationRef = None,
         displayedTransactionCount = 0, totalTransactionCount = 0\<rparr>
   \<and> buildGraph
        [\<lparr>source = ''A'', target = ''A'', amount = 1, date = ''d'', transactionId = ''t1'',
          direction = Outgoing, gasCost = 0\<rparr>] ''A'' {''A''} 50
      = Inl NoValidTransactionData
   \<and> error (renderGraph (\<lambda>i. (0, 0)) 1000
        [\<lparr>source = ''A'', target = ''A'', amount = 1, date = ''d'', transactionId = ''t1'',
          direction = Outgoing, gasCost = 0\<rparr>] ''A'' {''A''} 50
        \<lparr>error = None, isLoading = False, simulationRef = None,
         displayedTransactionCount = 0, totalTransactionCount = 0\<rparr>)
      = Some ''No valid transaction data found. The transactions may be missing source or target addresses.''"
proof -
  let ?txs = "[\<lparr>source = ''A'', target = ''A'', amount = 1, date = ''d'', transactionId = ''t1'',
      direction = Outgoing, gasCost = 0\<rparr>]"
  let ?st = "\<lparr>error = None, isLoading = False, simulationRef = None,
         displayedTransactionCount = 0, totalTransactionCount = 0\<rparr>"
  have h1: "?txs \<noteq> []" by simp
  have h2: "\<forall>t\<in>set ?txs. source t = target t" by simp
  have h3: "svgMounted ?st" by (simp add: svgMounted_def)
  show ?thesis
    using h3 self_referential_only_fails_at_validity_guard
                [OF h1 h2, of "''A''" "{''A''}" 50 "\<lambda>i. (0, 0)" 1000 ?st]
    by simp
qed

text \<open>
  Claim C4, as the specification states it, fails: for the single record from \<open>A\<close> to
  \<open>A\<close> the error is not the one for missing connections, whose message suggests
  another address.
\<close>

theorem self_referential_record_other_error:
  "buildGraph
     [\<lparr>source = ''A'', target = ''A'', amount = 1, date = ''d'', transactionId = ''t1'',
       direction = Outgoing, gasCost = 0\<rparr>] ''A'' {''A''} (transactionLimit Medium)
     = Inl NoValidTransactionData
   \<and> buildGraph
     [\<lparr>source = ''A'', target = ''A'', amount = 1, date = ''d'', transactionId = ''t1'',
       direction = Outgoing, gasCost = 0\<rparr>] ''A'' {''A''} (transactionLimit Medium)
     \<noteq> Inl NoValidConnections
   \<and> errorMessage NoValidTransactionData \<noteq> errorMessage NoValidConnections"
  by (simp add: build_defs)




section \<open>The primary link pass\<close>

text \<open>
  Claim C10. Whenever at least one valid record survives the limit, the endpoint filter of
  the primary pass rejects no record (the node map was built from the same records), so
  the pass emits exactly one link per limited transaction, its result is not empty, and
  the build returns these links as they are: the fallback branch, guarded by an empty link
  list, is not taken.
\<close>

theorem primary_pass_one_link_per_transaction:
  assumes "limitedTransactions transactions limit \<noteq> []"
  shows "filter (hasBothEnds (makeNodeMap (makeNodes exploredNodes focusAddress
                    (limitedTransactions transactions limit))))
            (limitedTransactions transactions limit)
          = limitedTransactions transactions limit
       \<and> length (primaryLinks (makeNodeMap (makeNodes exploredNodes focusAddress
                    (limitedTransactions transactions limit))) focusAddress
                    (limitedTransactions transactions limit))
          = length (limitedTransactions transactions limit)
       \<and> primaryLinks (makeNodeMap (makeNodes exploredNodes focusAddress
                    (limitedTransactions transactions limit))) focusAddress
                    (limitedTransactions transactions limit) \<noteq> []
       \<and> buildGraph transactions focusAddress exploredNodes limit
          = Inr \<lparr>graph_nodes = makeNodes exploredNodes focusAddress
                                 (limitedTransactions transactions limit),
                 graph_links = primaryLinks (makeNodeMap (makeNodes exploredNodes focusAddress
                                 (limitedTransactions transactions limit))) focusAddress
                                 (limitedTransactions transactions limit)\<rparr>"
proof -
  let ?limited = "limitedTransactions transactions limit"
  have nonempty: "transactions \<noteq> []"
    using assms by (auto simp: limitedTransactions_def validTransactions_def)
  have "filter (hasBothEnds (makeNodeMap (makeNodes exploredNodes focusAddress ?limited))) ?limited
          = ?limited"
    by (simp add: filter_hasBothEnds limited_valid)
  moreover have "length (primaryLinks (makeNodeMap (makeNodes exploredNodes focusAddress ?limited))
                    focusAddress ?limited) = length ?limited"
    by (simp add: primaryLinks_limited)
  moreover have "primaryLinks (makeNodeMap (makeNodes exploredNodes focusAddress ?limited))
                    focusAddress ?limited \<noteq> []"
    using assms by (simp add: primaryLinks_limited)
  moreover have "buildGraph transactions focusAddress exploredNodes limit
          = Inr \<lparr>graph_nodes = makeNodes exploredNodes focusAddress ?limited,
                 graph_links = primaryLinks (makeNodeMap (makeNodes exploredNodes focusAddress
                                 ?limited)) focusAddress ?limited\<rparr>"
    using assms nonempty by (simp add: buildGraph_cases)
  ultimately show ?thesis by blast
qed

theorem primary_pass_one_link_per_transaction_witness:
  "limitedTransactions
     [\<lparr>source = ''B'', target = ''C'', amount = 4, date = ''d'', transactionId = ''t1'',
       direction = Incoming, gasCost = 0\<rparr>] 25 \<noteq> []
   \<and> (\<exists>g. buildGraph
          [\<lparr>source = ''B'', target = ''C'', amount = 4, date = ''d'', transactionId = ''t1'',
            direction = Incoming, gasCost = 0\<rparr>] ''A'' {''A''} 25 = Inr g
        \<and> length (graph_links g) = 1)"
proof -
  let ?txs = "[\<lparr>source = ''B'', target = ''C'', amount = 4, date = ''d'',
                 transactionId = ''t1'', direction = Incoming, gasCost = 0\<rparr>]"
  have limited: "limitedTransactions ?txs 25 = ?txs"
    by (simp add: limitedTransactions_def validTransactions_def isValid_def)
  have h: "limitedTransactions ?txs 25 \<noteq> []"
    by (simp add: limited)
  show ?thesis
    using h primary_pass_one_link_per_transaction
              [OF h, where exploredNodes = "{''A''}" and focusAddress = "''A''"]
    by (simp add: limited)
qed

section \<open>Emitted links\<close>

text \<open>
  Claim C5. Every link of a built graph has a source and a target, their ids differ, and
  both are ids of nodes of the built graph.
\<close>

theorem emitted_links_join_distinct_nodes:
  assumes "buildGraph transactions focusAddress exploredNodes limit = Inr g"
  shows "\<forall>l\<in>set (graph_links g).
           \<exists>s t. link_source l = Some s \<and> link_target l = Some t \<and> s \<noteq> t
                 \<and> s \<in> node_id ` set (graph_nodes g) \<and> t \<in> node_id ` set (graph_nodes g)"
proof
  fix l assume l: "l \<in> set (graph_links g)"
  let ?limited = "limitedTransactions transactions limit"
  from assms have g: "g = \<lparr>graph_nodes = makeNodes exploredNodes focusAddress ?limited,
        graph_links = primaryLinks (makeNodeMap (makeNodes exploredNodes focusAddress ?limited))
                        focusAddress ?limited\<rparr>"
    by (simp add: buildGraph_cases split: if_splits)
  with l obtain t where t: "t \<in> set ?limited"
    and lt: "l = makeLink (makeNodeMap (makeNodes exploredNodes focusAddress ?limited)) focusAddress t"
    by (auto simp: primaryLinks_limited)
  have v: "isValid t" using t by (rule limited_valid)
  have "link_source l = Some (source t)" "link_target l = Some (target t)"
    using lt makeLink_limited [OF t v, of exploredNodes focusAddress] by simp_all
  moreover have "source t \<noteq> target t" using v by (simp add: isValid_def)
  moreover have "source t \<in> node_id ` set (graph_nodes g)" "target t \<in> node_id ` set (graph_nodes g)"
    using endpoints_in_nodeIds [OF t v, of focusAddress] g by (simp_all add: node_ids_makeNodes)
  ultimately show "\<exists>s t. link_source l = Some s \<and> link_target l = Some t \<and> s \<noteq> t
                 \<and> s \<in> node_id ` set (graph_nodes g) \<and> t \<in> node_id ` set (graph_nodes g)"
    by blast
qed

theorem emitted_links_join_distinct_nodes_witness:
  "\<exists>g. buildGraph
          [\<lparr>source = ''A'', target = ''B'', amount = 1, date = ''d'', transactionId = ''t1'',
            direction = Outgoing, gasCost = 0\<rparr>,
           \<lparr>source = ''C'', target = ''A'', amount = 5, date = ''d'', transactionId = ''t2'',
            direction = Incoming, gasCost = 0\<rparr>] ''A'' {''A''} 50 = Inr g
      \<and> map node_id (graph_nodes g) = [''A'', ''B'', ''C'']
      \<and> map link_source (graph_links g) = [Some ''A'', Some ''C'']
      \<and> map link_target (graph_links g) = [Some ''B'', Some ''A'']
      \<and> (\<forall>l\<in>set (graph_links g).
           \<exists>s t. link_source l = Some s \<and> link_target l = Some t \<and> s \<noteq> t
                 \<and> s \<in> node_id ` set (graph_nodes g) \<and> t \<in> node_id ` set (graph_nodes g))"
proof -
  let ?txs = "[\<lparr>source = ''A'', target = ''B'', amount = 1, date = ''d'', transactionId = ''t1'',
            direction = Outgoing, gasCost = 0\<rparr>,
           \<lparr>source = ''C'', target = ''A'', amount = 5, date = ''d'', transactionId = ''t2'',
            direction = Incoming, gasCost = 0\<rparr>]"
  let ?g = "\<lparr>graph_nodes =
            [\<lparr>node_id = ''A'', explored = True, node_x = None, node_y = None,
              node_fx = None, node_fy = None\<rparr>,
             \<lparr>node_id = ''B'', explored = False, node_x = None, node_y = None,
              node_fx = None, node_fy = None\<rparr>,
             \<lparr>node_id = ''C'', explored = False, node_x = None, node_y = None,
              node_fx = None, node_fy = None\<rparr>],
          graph_links =
            [\<lparr>link_source = Some ''A'', link_target = Some ''B'', link_value = 1,
              link_direction = Outgoing, link_transactionId = ''t1''\<rparr>,
             \<lparr>link_source = Some ''C'', link_target = Some ''A'', link_value = 5,
              link_direction = Incoming, link_transactionId = ''t2''\<rparr>]\<rparr>"
  have b: "buildGraph ?txs ''A'' {''A''} 50 = Inr ?g"
    by (simp add: build_defs)
  show ?thesis
    using emitted_links_join_distinct_nodes [OF b] b by simp
qed

text \<open>
  Claim C1, as the code has it, from the raw transactions of the wallet route to the links
  of the component. For a focus address and an address \<open>p\<close> that interacted with it,
  the raw transactions from the focus address to \<open>p\<close> (addresses compared without
  regard to case) give exactly one link from the focus address to \<open>p\<close>, provided
  the graph transactions of the page are within the limit: its value is the sum of the
  members' amounts, or 0.0001 when that sum is zero, its transaction id is the hash of the
  first member, and its direction is outgoing. The raw transactions from \<open>p\<close> to
  the focus address give exactly one incoming link in the same way. A link has no member
  count.
\<close>

theorem focus_peer_transactions_collapse_into_one_edge:
  assumes "address \<noteq> []"
    and "p \<in> set (interactingAddresses address result)"
    and "length (pageGraphTransactions now localeString address result) \<le> limit"
  shows "(outgoingTxs address result p \<noteq> [] \<longrightarrow>
           (\<exists>g. walletGraph now localeString address result exploredNodes limit = Inr g
              \<and> filter (\<lambda>l. link_source l = Some address \<and> link_target l = Some p)
                   (graph_links g)
                = [\<lparr>link_source = Some address, link_target = Some p,
                    link_value = (if totalAmount (outgoingTxs address result p) = 0
                                  then 1 / 10000
                                  else totalAmount (outgoingTxs address result p)),
                    link_direction = Outgoing,
                    link_transactionId = tx_hash (hd (outgoingTxs address result p))\<rparr>]))
       \<and> (incomingTxs address result p \<noteq> [] \<longrightarrow>
           (\<exists>g. walletGraph now localeString address result exploredNodes limit = Inr g
              \<and> filter (\<lambda>l. link_source l = Some p \<and> link_target l = Some address)
                   (graph_links g)
                = [\<lparr>link_source = Some p, link_target = Some address,
                    link_value = (if totalAmount (incomingTxs address result p) = 0
                                  then 1 / 10000
                                  else totalAmount (incomingTxs address result p)),
                    link_direction = Incoming,
                    link_transactionId = tx_hash (hd (incomingTxs address result p))\<rparr>]))"
proof -
  let ?s = "concat (map (directConnections address result)
               (interactingAddresses address result))"
  let ?mk = "\<lambda>t. \<lparr>link_source = Some (source t), link_target = Some (target t),
                   link_value = (if amount t = 0 then 1 / 10000 else amount t),
                   link_direction = (if source t = address then Outgoing else Incoming),
                   link_transactionId = transactionId t\<rparr>"
  have pa: "p \<noteq> address"
    using interactingAddresses_props(2) [OF assms(2)] by simp
  have built: "walletGraph now localeString address result exploredNodes limit
                 = Inr \<lparr>graph_nodes = makeNodes exploredNodes address ?s,
                        graph_links = map ?mk ?s\<rparr>"
    if ne: "?s \<noteq> []"
  proof -
    have page: "pageGraphTransactions now localeString address result = ?s"
      using ne by (rule page_passes_connections)
    have valid: "\<forall>r\<in>set ?s. isValid r"
      using connections_valid [OF assms(1)] by blast
    have len: "length ?s \<le> limit" using assms(3) page by simp
    show ?thesis
      unfolding walletGraph_def page
      using ne valid len by (rule buildGraph_all_valid)
  qed
  have out: "\<exists>g. walletGraph now localeString address result exploredNodes limit = Inr g
              \<and> filter (\<lambda>l. link_source l = Some address \<and> link_target l = Some p)
                   (graph_links g)
                = [\<lparr>link_source = Some address, link_target = Some p,
                    link_value = (if totalAmount (outgoingTxs address result p) = 0
                                  then 1 / 10000
                                  else totalAmount (outgoingTxs address result p)),
                    link_direction = Outgoing,
                    link_transactionId = tx_hash (hd (outgoingTxs address result p))\<rparr>]"
    if o: "outgoingTxs address result p \<noteq> []"
  proof -
    from o obtain tx rest where txs: "outgoingTxs address result p = tx # rest"
      by (cases "outgoingTxs address result p") auto
    have f: "filter (\<lambda>r. source r = address \<and> target r = p) ?s
               = [\<lparr>source = address, target = p,
                   amount = totalAmount (outgoingTxs address result p),
                   date = formattedDate tx, transactionId = tx_hash tx,
                   direction = Outgoing, gasCost = 0\<rparr>]"
      using assms(2) by (simp add: connections_outgoing txs)
    have ne: "?s \<noteq> []"
    proof
      assume "?s = []"
      then have "filter (\<lambda>r. source r = address \<and> target r = p) ?s = []"
        by (simp only: filter.simps)
      with f show False by simp
    qed
    have "filter (\<lambda>l. link_source l = Some address \<and> link_target l = Some p) (map ?mk ?s)
            = map ?mk (filter (\<lambda>r. source r = address \<and> target r = p) ?s)"
      by (simp add: filter_map comp_def)
    also have "\<dots> = [\<lparr>link_source = Some address, link_target = Some p,
                    link_value = (if totalAmount (outgoingTxs address result p) = 0
                                  then 1 / 10000
                                  else totalAmount (outgoingTxs address result p)),
                    link_direction = Outgoing,
                    link_transactionId = tx_hash (hd (outgoingTxs address result p))\<rparr>]"
      unfolding f by (simp add: txs)
    finally show ?thesis
      using built [OF ne] by simp
  qed
  have inc: "\<exists>g. walletGraph now localeString address result exploredNodes limit = Inr g
              \<and> filter (\<lambda>l. link_source l = Some p \<and> link_target l = Some address)
                   (graph_links g)
                = [\<lparr>link_source = Some p, link_target = Some address,
                    link_value = (if totalAmount (incomingTxs address result p) = 0
                                  then 1 / 10000
                                  else totalAmount (incomingTxs address result p)),
                    link_direction = Incoming,
                    link_transactionId = tx_hash (hd (incomingTxs address result p))\<rparr>]"
    if i: "incomingTxs address result p \<noteq> []"
  proof -
    from i obtain tx rest where txs: "incomingTxs address result p = tx # rest"
      by (cases "incomingTxs address result p") auto
    have f: "filter (\<lambda>r. source r = p \<and> target r = address) ?s
               = [\<lparr>source = p, target = address,
                   amount = totalAmount (incomingTxs address result p),
                   date = formattedDate tx, transactionId = tx_hash tx,
                   direction = Incoming, gasCost = 0\<rparr>]"
      using assms(2) by (simp add: connections_incoming txs)
    have ne: "?s \<noteq> []"
    proof
      assume "?s = []"
      then have "filter (\<lambda>r. source r = p \<and> target r = address) ?s = []"
        by (simp only: filter.simps)
      with f show False by simp
    qed
    have "filter (\<lambda>l. link_source l = Some p \<and> link_target l = Some address) (map ?mk ?s)
            = map ?mk (filter (\<lambda>r. source r = p \<and> target r = address) ?s)"
      by (simp add: filter_map comp_def)
    also have "\<dots> = [\<lparr>link_source = Some p, link_target = Some address,
                    link_value = (if totalAmount (incomingTxs address result p) = 0
                                  then 1 / 10000
                                  else totalAmount (incomingTxs address result p)),
                    link_direction = Incoming,
                    link_transactionId = tx_hash (hd (incomingTxs address result p))\<rparr>]"
      unfolding f using pa by (simp add: txs)
    finally show ?thesis
      using built [OF ne] by simp
  qed
  show ?thesis using out inc by blast
qed

text \<open>
  The first scenario of the specification: two outgoing transactions from \<open>a\<close> to
  \<open>b\<close> of amounts 1 and 2 give the single link from \<open>a\<close> to \<open>b\<close> of
  value 3 that carries the first hash.
\<close>

theorem focus_peer_transactions_collapse_into_one_edge_witness:
  "''a'' \<noteq> []
   \<and> ''b'' \<in> set (interactingAddresses ''a''
        [\<lparr>tx_from = ''a'', tx_to = ''b'', tx_hash = ''h1'', tx_timeStamp = ''1'',
          valueInEth = 1, formattedDate = ''d1'', tx_direction = Outgoing, gasCostEth = 0\<rparr>,
         \<lparr>tx_from = ''a'', tx_to = ''b'', tx_hash = ''h2'', tx_timeStamp = ''2'',
          valueInEth = 2, formattedDate = ''d2'', tx_direction = Outgoing, gasCostEth = 0\<rparr>])
   \<and> length (pageGraphTransactions ''n'' id ''a''
        [\<lparr>tx_from = ''a'', tx_to = ''b'', tx_hash = ''h1'', tx_timeStamp = ''1'',
          valueInEth = 1, formattedDate = ''d1'', tx_direction = Outgoing, gasCostEth = 0\<rparr>,
         \<lparr>tx_from = ''a'', tx_to = ''b'', tx_hash = ''h2'', tx_timeStamp = ''2'',
          valueInEth = 2, formattedDate = ''d2'', tx_direction = Outgoing, gasCostEth = 0\<rparr>])
       \<le> transactionLimit Medium
   \<and> outgoingTxs ''a''
        [\<lparr>tx_from = ''a'', tx_to = ''b'', tx_hash = ''h1'', tx_timeStamp = ''1'',
          valueInEth = 1, formattedDate = ''d1'', tx_direction = Outgoing, gasCostEth = 0\<rparr>,
         \<lparr>tx_from = ''a'', tx_to = ''b'', tx_hash = ''h2'', tx_timeStamp = ''2'',
          valueInEth = 2, formattedDate = ''d2'', tx_direction = Outgoing, gasCostEth = 0\<rparr>]
        ''b'' \<noteq> []
   \<and> walletGraph ''n'' id ''a''
        [\<lparr>tx_from = ''a'', tx_to = ''b'', tx_hash = ''h1'', tx_timeStamp = ''1'',
          valueInEth = 1, formattedDate = ''d1'', tx_direction = Outgoing, gasCostEth = 0\<rparr>,
         \<lparr>tx_from = ''a'', tx_to = ''b'', tx_hash = ''h2'', tx_timeStamp = ''2'',
          valueInEth = 2, formattedDate = ''d2'', tx_direction = Outgoing, gasCostEth = 0\<rparr>]
        {''a''} (transactionLimit Medium)
     = Inr \<lparr>graph_nodes =
              [\<lparr>node_id = ''a'', explored = True, node_x = None, node_y = None,
                node_fx = None, node_fy = None\<rparr>,
               \<lparr>node_id = ''b'', explored = False, node_x = None, node_y = None,
                node_fx = None, node_fy = None\<rparr>],
            graph_links =
              [\<lparr>link_source = Some ''a'', link_target = Some ''b'', link_value = 3,
                link_direction = Outgoing, link_transactionId = ''h1''\<rparr>]\<rparr>
   \<and> (\<exists>g. walletGraph ''n'' id ''a''
        [\<lparr>tx_from = ''a'', tx_to = ''b'', tx_hash = ''h1'', tx_timeStamp = ''1'',
          valueInEth = 1, formattedDate = ''d1'', tx_direction = Outgoing, gasCostEth = 0\<rparr>,
         \<lparr>tx_from = ''a'', tx_to = ''b'', tx_hash = ''h2'', tx_timeStamp = ''2'',
          valueInEth = 2, formattedDate = ''d2'', tx_direction = Outgoing, gasCostEth = 0\<rparr>]
        {''a''} (transactionLimit Medium) = Inr g
      \<and> filter (\<lambda>l. link_source l = Some ''a'' \<and> link_target l = Some ''b'') (graph_links g)
        = [\<lparr>link_source = Some ''a'', link_target = Some ''b'', link_value = 3,
            link_direction = Outgoing, link_transactionId = ''h1''\<rparr>])"
proof -
  let ?result = "[\<lparr>tx_from = ''a'', tx_to = ''b'', tx_hash = ''h1'', tx_timeStamp = ''1'',
          valueInEth = 1, formattedDate = ''d1'', tx_direction = Outgoing, gasCostEth = 0\<rparr>,
         \<lparr>tx_from = ''a'', tx_to = ''b'', tx_hash = ''h2'', tx_timeStamp = ''2'',
          valueInEth = 2, formattedDate = ''d2'', tx_direction = Outgoing, gasCostEth = 0\<rparr>]"
  have h1: "''a'' \<noteq> []" by simp
  have peers: "interactingAddresses ''a'' ?result = [''b'']"
    by (simp add: interactingAddresses_def toLowerCase_def setAdd_def)
  have h2: "''b'' \<in> set (interactingAddresses ''a'' ?result)"
    by (simp add: peers)
  have out: "outgoingTxs ''a'' ?result ''b'' = ?result"
    by (simp add: outgoingTxs_def toLowerCase_def)
  have inc: "incomingTxs ''a'' ?result ''b'' = []"
    by (simp add: incomingTxs_def toLowerCase_def)
  have conn: "concat (map (directConnections ''a'' ?result)
                         (interactingAddresses ''a'' ?result))
                = [\<lparr>source = ''a'', target = ''b'', amount = 3, date = ''d1'',
                    transactionId = ''h1'', direction = Outgoing, gasCost = 0\<rparr>]"
    by (simp add: peers directConnections_def out inc totalAmount_def)
  have page: "pageGraphTransactions ''n'' id ''a'' ?result
                = [\<lparr>source = ''a'', target = ''b'', amount = 3, date = ''d1'',
                    transactionId = ''h1'', direction = Outgoing, gasCost = 0\<rparr>]"
    using page_passes_connections [of "''a''" ?result "''n''" id, unfolded conn] by simp
  have h3: "length (pageGraphTransactions ''n'' id ''a'' ?result) \<le> transactionLimit Medium"
    by (simp add: page)
  have h4: "outgoingTxs ''a'' ?result ''b'' \<noteq> []"
    by (simp add: out)
  from focus_peer_transactions_collapse_into_one_edge [OF h1 h2 h3, of "{''a''}"] h4
  obtain g where g: "walletGraph ''n'' id ''a'' ?result {''a''} (transactionLimit Medium) = Inr g"
    and one: "filter (\<lambda>l. link_source l = Some ''a'' \<and> link_target l = Some ''b'')
                (graph_links g)
              = [\<lparr>link_source = Some ''a'', link_target = Some ''b'',
                  link_value = (if totalAmount (outgoingTxs ''a'' ?result ''b'') = 0
                                then 1 / 10000
                                else totalAmount (outgoingTxs ''a'' ?result ''b'')),
                  link_direction = Outgoing,
                  link_transactionId = tx_hash (hd (outgoingTxs ''a'' ?result ''b''))\<rparr>]"
    by blast
  have graph: "walletGraph ''n'' id ''a'' ?result {''a''} (transactionLimit Medium)
     = Inr \<lparr>graph_nodes =
              [\<lparr>node_id = ''a'', explored = True, node_x = None, node_y = None,
                node_fx = None, node_fy = None\<rparr>,
               \<lparr>node_id = ''b'', explored = False, node_x = None, node_y = None,
                node_fx = None, node_fy = None\<rparr>],
            graph_links =
              [\<lparr>link_source = Some ''a'', link_target = Some ''b'', link_value = 3,
                link_direction = Outgoing, link_transactionId = ''h1''\<rparr>]\<rparr>"
    by (simp add: walletGraph_def page build_defs)
  from one have "filter (\<lambda>l. link_source l = Some ''a'' \<and> link_target l = Some ''b'')
                (graph_links g)
              = [\<lparr>link_source = Some ''a'', link_target = Some ''b'', link_value = 3,
                  link_direction = Outgoing, link_transactionId = ''h1''\<rparr>]"
    by (simp add: out totalAmount_def)
  with g have ex: "\<exists>g. walletGraph ''n'' id ''a'' ?result {''a''} (transactionLimit Medium) = Inr g
      \<and> filter (\<lambda>l. link_source l = Some ''a'' \<and> link_target l = Some ''b'') (graph_links g)
        = [\<lparr>link_source = Some ''a'', link_target = Some ''b'', link_value = 3,
            link_direction = Outgoing, link_transactionId = ''h1''\<rparr>]"
    by blast
  from h1 h2 h3 h4 graph ex show ?thesis by (intro conjI)
qed

text \<open>
  Claim C1, as the specification states it, fails: two outgoing transactions of amount 0,
  whose sum is 0, are drawn as one link of value 0.0001.
\<close>

theorem zero_amount_members_drawn_as_small_amount:
  "walletGraph ''n'' id ''a''
        [\<lparr>tx_from = ''a'', tx_to = ''b'', tx_hash = ''h1'', tx_timeStamp = ''1'',
          valueInEth = 0, formattedDate = ''d1'', tx_direction = Outgoing, gasCostEth = 0\<rparr>,
         \<lparr>tx_from = ''a'', tx_to = ''b'', tx_hash = ''h2'', tx_timeStamp = ''2'',
          valueInEth = 0, formattedDate = ''d2'', tx_direction = Outgoing, gasCostEth = 0\<rparr>]
        {''a''} (transactionLimit Medium)
     = Inr \<lparr>graph_nodes =
              [\<lparr>node_id = ''a'', explored = True, node_x = None, node_y = None,
                node_fx = None, node_fy = None\<rparr>,
               \<lparr>node_id = ''b'', explored = False, node_x = None, node_y = None,
                node_fx = None, node_fy = None\<rparr>],
            graph_links =
              [\<lparr>link_source = Some ''a'', link_target = Some ''b'', link_value = 1 / 10000,
                link_direction = Outgoing, link_transactionId = ''h1''\<rparr>]\<rparr>
   \<and> valueInEth \<lparr>tx_from = ''a'', tx_to = ''b'', tx_hash = ''h1'', tx_timeStamp = ''1'',
          valueInEth = 0, formattedDate = ''d1'', tx_direction = Outgoing, gasCostEth = 0\<rparr>
     + valueInEth \<lparr>tx_from = ''a'', tx_to = ''b'', tx_hash = ''h2'', tx_timeStamp = ''2'',
          valueInEth = 0, formattedDate = ''d2'', tx_direction = Outgoing, gasCostEth = 0\<rparr>
     \<noteq> 1 / 10000"
proof -
  let ?result = "[\<lparr>tx_from = ''a'', tx_to = ''b'', tx_hash = ''h1'', tx_timeStamp = ''1'',
          valueInEth = 0, formattedDate = ''d1'', tx_direction = Outgoing, gasCostEth = 0\<rparr>,
         \<lparr>tx_from = ''a'', tx_to = ''b'', tx_hash = ''h2'', tx_timeStamp = ''2'',
          valueInEth = 0, formattedDate = ''d2'', tx_direction = Outgoing, gasCostEth = 0\<rparr>]"
  have peers: "interactingAddresses ''a'' ?result = [''b'']"
    by (simp add: interactingAddresses_def toLowerCase_def setAdd_def)
  have out: "outgoingTxs ''a'' ?result ''b'' = ?result"
    by (simp add: outgoingTxs_def toLowerCase_def)
  have inc: "incomingTxs ''a'' ?result ''b'' = []"
    by (simp add: incomingTxs_def toLowerCase_def)
  have conn: "concat (map (directConnections ''a'' ?result)
                         (interactingAddresses ''a'' ?result))
                = [\<lparr>source = ''a'', target = ''b'', amount = 0, date = ''d1'',
                    transactionId = ''h1'', direction = Outgoing, gasCost = 0\<rparr>]"
    by (simp add: peers directConnections_def out inc totalAmount_def)
  have page: "pageGraphTransactions ''n'' id ''a'' ?result
                = [\<lparr>source = ''a'', target = ''b'', amount = 0, date = ''d1'',
                    transactionId = ''h1'', direction = Outgoing, gasCost = 0\<rparr>]"
    using page_passes_connections [of "''a''" ?result "''n''" id, unfolded conn] by simp
  show ?thesis
    by (simp add: walletGraph_def page build_defs)
qed

section \<open>Detail levels\<close>

text \<open>
  Claim C7. The detail levels low, medium and high give the limits 25, 50 and 100. The
  links of a built graph are made from the first \<open>limit\<close> valid records, one link
  each and in their order, and its nodes from the addresses of these records. With 200
  valid records and the low level the graph has exactly 25 links, those of the first 25
  valid records, and 25 is the count the view displays where the body of the effect runs.
\<close>

theorem detail_level_limits_considered_records:
  "transactionLimit Low = 25 \<and> transactionLimit Medium = 50 \<and> transactionLimit High = 100
   \<and> (\<forall>g. buildGraph transactions focusAddress exploredNodes (transactionLimit level) = Inr g
         \<longrightarrow>
           graph_links g
             = map (\<lambda>t. \<lparr>link_source = Some (source t), link_target = Some (target t),
                          link_value = (if amount t = 0 then 1 / 10000 else amount t),
                          link_direction =
                            (if source t = focusAddress then Outgoing else Incoming),
                          link_transactionId = transactionId t\<rparr>)
                 (take (transactionLimit level) (validTransactions transactions))
         \<and> map node_id (graph_nodes g)
             = nodeIds focusAddress
                 (take (transactionLimit level) (validTransactions transactions)))
   \<and> (length (validTransactions transactions) = 200 \<longrightarrow>
        (\<exists>g. buildGraph transactions focusAddress exploredNodes (transactionLimit Low) = Inr g
            \<and> length (graph_links g) = 25
            \<and> map link_transactionId (graph_links g)
                = map transactionId (take 25 (validTransactions transactions)))
        \<and> (svgMounted st \<longrightarrow>
             displayedTransactionCount
               (renderGraph place width transactions focusAddress exploredNodes
                  (transactionLimit Low) st) = 25))"
proof -
  have built: "graph_links g
             = map (\<lambda>t. \<lparr>link_source = Some (source t), link_target = Some (target t),
                          link_value = (if amount t = 0 then 1 / 10000 else amount t),
                          link_direction =
                            (if source t = focusAddress then Outgoing else Incoming),
                          link_transactionId = transactionId t\<rparr>)
                 (take n (validTransactions transactions))
         \<and> map node_id (graph_nodes g)
             = nodeIds focusAddress (take n (validTransactions transactions))"
    if "buildGraph transactions focusAddress exploredNodes n = Inr g" for g n
    using that
    by (auto simp: buildGraph_cases primaryLinks_explicit node_id_makeNodes
          limitedTransactions_def [symmetric] split: if_splits)
  have low: "(\<exists>g. buildGraph transactions focusAddress exploredNodes (transactionLimit Low) = Inr g
            \<and> length (graph_links g) = 25
            \<and> map link_transactionId (graph_links g)
                = map transactionId (take 25 (validTransactions transactions)))
        \<and> (svgMounted st \<longrightarrow>
             displayedTransactionCount
               (renderGraph place width transactions focusAddress exploredNodes
                  (transactionLimit Low) st) = 25)"
    if len: "length (validTransactions transactions) = 200"
  proof -
    have l: "length (limitedTransactions transactions 25) = 25"
      using len by (simp add: limitedTransactions_def)
    then have ne: "limitedTransactions transactions 25 \<noteq> []" by auto
    then have txs: "transactions \<noteq> []"
      by (auto simp: limitedTransactions_def validTransactions_def)
    obtain g where g: "buildGraph transactions focusAddress exploredNodes 25 = Inr g"
      using ne txs by (simp add: buildGraph_cases)
    have "length (graph_links g) = 25"
      "map link_transactionId (graph_links g)
         = map transactionId (take 25 (validTransactions transactions))"
      using built [OF g] len by (simp_all add: comp_def)
    moreover have "svgMounted st \<longrightarrow>
             displayedTransactionCount
               (renderGraph place width transactions focusAddress exploredNodes 25 st) = 25"
      using l ne txs by (simp add: renderGraph_def buildGraph_cases)
    ultimately show ?thesis using g by simp
  qed
  show ?thesis
    using built low by simp
qed

theorem detail_level_limits_considered_records_witness:
  "length (validTransactions (replicate 200
      \<lparr>source = ''A'', target = ''B'', amount = 1, date = ''d'', transactionId = ''t1'',
       direction = Outgoing, gasCost = 0\<rparr>)) = 200
   \<and> svgMounted \<lparr>error = None, isLoading = False, simulationRef = None,
            displayedTransactionCount = 0, totalTransactionCount = 0\<rparr>
   \<and> (\<exists>g. buildGraph (replicate 200
           \<lparr>source = ''A'', target = ''B'', amount = 1, date = ''d'', transactionId = ''t1'',
            direction = Outgoing, gasCost = 0\<rparr>) ''A'' {''A''} (transactionLimit Low) = Inr g
         \<and> length (graph_links g) = 25)
   \<and> displayedTransactionCount
        (renderGraph (\<lambda>i. (0, 0)) 1000 (replicate 200
           \<lparr>source = ''A'', target = ''B'', amount = 1, date = ''d'', transactionId = ''t1'',
            direction = Outgoing, gasCost = 0\<rparr>) ''A'' {''A''} (transactionLimit Low)
           \<lparr>error = None, isLoading = False, simulationRef = None,
            displayedTransactionCount = 0, totalTransactionCount = 0\<rparr>) = 25"
proof -
  let ?t = "\<lparr>source = ''A'', target = ''B'', amount = 1, date = ''d'', transactionId = ''t1'',
       direction = Outgoing, gasCost = 0\<rparr>"
  let ?st = "\<lparr>error = None, isLoading = False, simulationRef = None,
            displayedTransactionCount = 0, totalTransactionCount = 0\<rparr>"
  have h: "length (validTransactions (replicate 200 ?t)) = 200"
    by (simp add: validTransactions_def isValid_def)
  have m: "svgMounted ?st" by (simp add: svgMounted_def)
  have "(\<exists>g. buildGraph (replicate 200 ?t) ''A'' {''A''} (transactionLimit Low) = Inr g
            \<and> length (graph_links g) = 25
            \<and> map link_transactionId (graph_links g)
                = map transactionId (take 25 (validTransactions (replicate 200 ?t))))
        \<and> (svgMounted ?st \<longrightarrow>
             displayedTransactionCount
               (renderGraph (\<lambda>i. (0, 0)) 1000 (replicate 200 ?t) ''A'' {''A''}
                  (transactionLimit Low) ?st) = 25)"
    using h detail_level_limits_considered_records
              [of "replicate 200 ?t" "''A''" "{''A''}" Low ?st "\<lambda>i. (0, 0)" 1000]
    by blast
  then show ?thesis using h m by blast
qed

section \<open>Drawn link widths\<close>

text \<open>
  Claim C6, as the code has it. A link is drawn with the width
  \<open>min 3 (max 1 (ln (value + 1)))\<close>, which depends on its own value alone: for the links
  of a graph built from amounts that are not negative the width lies in the range from 1
  to 3, grows with the value, is 1 up to the value 1, the logarithm itself from 2 to 7,
  and 3 from 26 on; links of equal value have equal width. Nothing is divided, no largest
  or smallest value enters, and the width under the pointer lies between 2 and 5. The
  linear closure \<^verbatim>\<open>normalizeValue\<close> is not applied to any link.
\<close>

theorem drawn_link_width_logarithmic_and_bounded:
  assumes "buildGraph transactions focusAddress exploredNodes limit = Inr g"
    and "\<forall>t\<in>set transactions. 0 \<le> amount t"
  shows "\<forall>a\<in>set (graph_links g). \<forall>b\<in>set (graph_links g).
           0 < link_value a
         \<and> linkStrokeWidth a = min 3 (max 1 (ln (link_value a + 1)))
         \<and> 1 \<le> linkStrokeWidth a \<and> linkStrokeWidth a \<le> 3
         \<and> (link_value a \<le> link_value b \<longrightarrow> linkStrokeWidth a \<le> linkStrokeWidth b)
         \<and> (link_value a = link_value b \<longrightarrow> linkStrokeWidth a = linkStrokeWidth b)
         \<and> (link_value a \<le> 1 \<longrightarrow> linkStrokeWidth a = 1)
         \<and> (2 \<le> link_value a \<and> link_value a \<le> 7 \<longrightarrow>
               linkStrokeWidth a = ln (link_value a + 1))
         \<and> (26 \<le> link_value a \<longrightarrow> linkStrokeWidth a = 3)
         \<and> 2 \<le> linkHoverStrokeWidth a \<and> linkHoverStrokeWidth a \<le> 5"
proof (intro ballI)
  fix a b assume a: "a \<in> set (graph_links g)" and b: "b \<in> set (graph_links g)"
  have pos: "0 < link_value a" using assms a by (rule built_link_values_positive)
  then have nonneg: "0 \<le> link_value a" by simp
  have "link_value a \<le> link_value b \<longrightarrow> linkStrokeWidth a \<le> linkStrokeWidth b"
    using linkStrokeWidth_mono [OF nonneg] by blast
  moreover have "link_value a = link_value b \<longrightarrow> linkStrokeWidth a = linkStrokeWidth b"
    by (simp add: linkStrokeWidth_def)
  moreover have "link_value a \<le> 1 \<longrightarrow> linkStrokeWidth a = 1"
    using linkStrokeWidth_cases(1) [OF nonneg] by blast
  moreover have "2 \<le> link_value a \<and> link_value a \<le> 7 \<longrightarrow>
               linkStrokeWidth a = ln (link_value a + 1)"
    using linkStrokeWidth_cases(3) [OF nonneg] by blast
  moreover have "26 \<le> link_value a \<longrightarrow> linkStrokeWidth a = 3"
    using linkStrokeWidth_cases(2) [OF nonneg] by blast
  moreover have "linkStrokeWidth a = min 3 (max 1 (ln (link_value a + 1)))"
    by (simp add: linkStrokeWidth_def)
  ultimately show "0 < link_value a
         \<and> linkStrokeWidth a = min 3 (max 1 (ln (link_value a + 1)))
         \<and> 1 \<le> linkStrokeWidth a \<and> linkStrokeWidth a \<le> 3
         \<and> (link_value a \<le> link_value b \<longrightarrow> linkStrokeWidth a \<le> linkStrokeWidth b)
         \<and> (link_value a = link_value b \<longrightarrow> linkStrokeWidth a = linkStrokeWidth b)
         \<and> (link_value a \<le> 1 \<longrightarrow> linkStrokeWidth a = 1)
         \<and> (2 \<le> link_value a \<and> link_value a \<le> 7 \<longrightarrow>
               linkStrokeWidth a = ln (link_value a + 1))
         \<and> (26 \<le> link_value a \<longrightarrow> linkStrokeWidth a = 3)
         \<and> 2 \<le> linkHoverStrokeWidth a \<and> linkHoverStrokeWidth a \<le> 5"
    using pos linkStrokeWidth_range [of a] linkHoverStrokeWidth_range [of a] by blast
qed

theorem drawn_link_width_logarithmic_and_bounded_witness:
  "(0::real) \<le> 1 \<and> (0::real) \<le> 7
   \<and> (\<exists>g. buildGraph
          [\<lparr>source = ''A'', target = ''B'', amount = 1, date = ''d'', transactionId = ''t1'',
            direction = Outgoing, gasCost = 0\<rparr>,
           \<lparr>source = ''C'', target = ''A'', amount = 7, date = ''d'', transactionId = ''t2'',
            direction = Incoming, gasCost = 0\<rparr>] ''A'' {''A''} 50 = Inr g
        \<and> map linkStrokeWidth (graph_links g) = [1, ln 8])"
proof -
  let ?txs = "[\<lparr>source = ''A'', target = ''B'', amount = 1, date = ''d'', transactionId = ''t1'',
            direction = Outgoing, gasCost = 0\<rparr>,
           \<lparr>source = ''C'', target = ''A'', amount = 7, date = ''d'', transactionId = ''t2'',
            direction = Incoming, gasCost = 0\<rparr>]"
  let ?l1 = "\<lparr>link_source = Some ''A'', link_target = Some ''B'', link_value = 1,
              link_direction = Outgoing, link_transactionId = ''t1''\<rparr>"
  let ?l2 = "\<lparr>link_source = Some ''C'', link_target = Some ''A'', link_value = 7,
              link_direction = Incoming, link_transactionId = ''t2''\<rparr>"
  let ?g = "\<lparr>graph_nodes =
            [\<lparr>node_id = ''A'', explored = True, node_x = None, node_y = None,
              node_fx = None, node_fy = None\<rparr>,
             \<lparr>node_id = ''B'', explored = False, node_x = None, node_y = None,
              node_fx = None, node_fy = None\<rparr>,
             \<lparr>node_id = ''C'', explored = False, node_x = None, node_y = None,
              node_fx = None, node_fy = None\<rparr>],
          graph_links = [?l1, ?l2]\<rparr>"
  have b: "buildGraph ?txs ''A'' {''A''} 50 = Inr ?g"
    by (simp add: build_defs)
  have h: "\<forall>t\<in>set ?txs. 0 \<le> amount t" by simp
  note w = drawn_link_width_logarithmic_and_bounded [OF b h]
  have "linkStrokeWidth ?l1 = 1"
    using w [THEN bspec, of ?l1, THEN bspec, of ?l1] by simp
  moreover have "linkStrokeWidth ?l2 = ln 8"
    using w [THEN bspec, of ?l2, THEN bspec, of ?l2] by simp
  ultimately show ?thesis using b by simp
qed

text \<open>
  Claim C6, as the specification states it, fails: beside a link of value 1 a link of
  value 1000 is drawn with width 3, where the linear map into the range from 1 to 5 gives
  5; and a single link of value 1 is drawn with width 1, the lower end of the range.
\<close>

theorem largest_amount_drawn_three_smallest_one:
  "linkStrokeWidth \<lparr>link_source = Some ''A'', link_target = Some ''B'', link_value = 1000,
                    link_direction = Outgoing, link_transactionId = ''t1''\<rparr> = 3
   \<and> normalizeValue 1000 1 1000 = 5
   \<and> linkStrokeWidth \<lparr>link_source = Some ''A'', link_target = Some ''C'', link_value = 1,
                    link_direction = Outgoing, link_transactionId = ''t2''\<rparr> = 1
   \<and> normalizeValue 1 1 1 = 2"
proof -
  have "linkStrokeWidth \<lparr>link_source = Some ''A'', link_target = Some ''B'', link_value = 1000,
                    link_direction = Outgoing, link_transactionId = ''t1''\<rparr> = 3"
    by (rule linkStrokeWidth_cases(2)) simp_all
  moreover have "linkStrokeWidth \<lparr>link_source = Some ''A'', link_target = Some ''C'', link_value = 1,
                    link_direction = Outgoing, link_transactionId = ''t2''\<rparr> = 1"
    by (rule linkStrokeWidth_cases(1)) simp_all
  moreover have "normalizeValue 1000 1 1000 = 5" "normalizeValue 1 1 1 = 2"
    by (simp_all add: normalizeValue_def)
  ultimately show ?thesis by blast
qed

section \<open>Ticks and drags\<close>

text \<open>
  Claim C8, as the code has it. After every tick each node has coordinates, both at least
  the margin of 100. The x coordinate is at most the width less 100 when the container is
  at least 200 wide, and likewise the y coordinate for the height, which the effect fixes
  at 800. In a container narrower than 200 the x coordinate of every node is 100.
\<close>

theorem tick_clamps_every_node:
  "\<forall>d\<in>set (sim_nodes (simulationTick forces sim)).
     \<exists>px py. node_x d = Some px \<and> node_y d = Some py
       \<and> 100 \<le> px \<and> 100 \<le> py
       \<and> (200 \<le> sim_width sim \<longrightarrow> px \<le> sim_width sim - 100)
       \<and> (200 \<le> sim_height sim \<longrightarrow> py \<le> sim_height sim - 100)
       \<and> (sim_width sim < 200 \<longrightarrow> px = 100)"
proof
  fix d assume "d \<in> set (sim_nodes (simulationTick forces sim))"
  then obtain i where i: "i < length (sim_nodes sim)"
    and d: "d = sim_nodes (simulationTick forces sim) ! i"
    by (auto simp: in_set_conv_nth length_simulationTick)
  show "\<exists>px py. node_x d = Some px \<and> node_y d = Some py
       \<and> 100 \<le> px \<and> 100 \<le> py
       \<and> (200 \<le> sim_width sim \<longrightarrow> px \<le> sim_width sim - 100)
       \<and> (200 \<le> sim_height sim \<longrightarrow> py \<le> sim_height sim - 100)
       \<and> (sim_width sim < 200 \<longrightarrow> px = 100)"
    unfolding d simulationTick_nth [OF i] by auto
qed

theorem tick_clamps_every_node_witness:
  "(200::real) \<le> 1000 \<and> (200::real) \<le> 800
   \<and> list_all (\<lambda>d. \<exists>px py. node_x d = Some px \<and> node_y d = Some py
                   \<and> 100 \<le> px \<and> px \<le> 1000 - 100 \<and> 100 \<le> py \<and> py \<le> 800 - 100)
        (sim_nodes (simulationTick (\<lambda>nodes i. (5000, - 20))
           \<lparr>sim_nodes =
              [\<lparr>node_id = ''A'', explored = True, node_x = Some 500, node_y = Some 400,
                node_fx = None, node_fy = None\<rparr>,
               \<lparr>node_id = ''B'', explored = False, node_x = Some 300, node_y = Some 300,
                node_fx = Some 50, node_fy = Some 350\<rparr>],
            sim_links = [], sim_width = 1000, sim_height = 800,
            sim_alpha = 1, sim_alphaTarget = 0, sim_running = True\<rparr>))"
proof -
  let ?sim = "\<lparr>sim_nodes =
              [\<lparr>node_id = ''A'', explored = True, node_x = Some 500, node_y = Some 400,
                node_fx = None, node_fy = None\<rparr>,
               \<lparr>node_id = ''B'', explored = False, node_x = Some 300, node_y = Some 300,
                node_fx = Some 50, node_fy = Some 350\<rparr>],
            sim_links = [], sim_width = 1000, sim_height = 800,
            sim_alpha = 1, sim_alphaTarget = 0, sim_running = True\<rparr>"
  have "\<forall>d\<in>set (sim_nodes (simulationTick (\<lambda>nodes i. (5000, - 20)) ?sim)).
     \<exists>px py. node_x d = Some px \<and> node_y d = Some py
       \<and> 100 \<le> px \<and> px \<le> 1000 - 100 \<and> 100 \<le> py \<and> py \<le> 800 - 100"
    using tick_clamps_every_node [of "\<lambda>nodes i. (5000, - 20)" ?sim]
    by (simp only: simulation.simps) fastforce
  then show ?thesis
    by (simp only: list_all_iff) simp
qed

text \<open>
  Claim C8, as the specification states it, fails: in a container 150 wide the listener
  puts a node at x = 100, beyond the width less the margin, which is 50.
\<close>

theorem narrow_container_tick_leaves_range:
  "map node_x (tickHandler 150 800
      [\<lparr>node_id = ''A'', explored = True, node_x = Some 50, node_y = Some 400,
        node_fx = None, node_fy = None\<rparr>]) = [Some 100]
   \<and> \<not> ((100::real) \<le> 150 - 100)"
  by (simp add: tickHandler_def)

text \<open>
  Claim C9. The end of a drag changes no node, so a node dragged to \<open>(x0, y0)\<close> keeps
  this fixed position through the end of the drag and through every later tick, whatever
  the forces of these ticks do to its neighbours. After each such tick its coordinates are
  the fixed position as the listener clamps it, the same at every tick; they are
  \<open>(x0, y0)\<close> itself when that point lies within the margins.
\<close>

theorem drag_end_keeps_node_pinned:
  assumes "i < length (sim_nodes sim)"
  shows "sim_nodes (dragended e2 i (dragged e1 i sim)) = sim_nodes (dragged e1 i sim)
       \<and> node_fx (sim_nodes (runTicks fs (dragended e2 i (dragged e1 i sim))) ! i) = Some (ev_x e1)
       \<and> node_fy (sim_nodes (runTicks fs (dragended e2 i (dragged e1 i sim))) ! i) = Some (ev_y e1)
       \<and> (fs \<noteq> [] \<longrightarrow>
            node_x (sim_nodes (runTicks fs (dragended e2 i (dragged e1 i sim))) ! i)
              = Some (max 100 (min (sim_width sim - 100) (ev_x e1)))
          \<and> node_y (sim_nodes (runTicks fs (dragended e2 i (dragged e1 i sim))) ! i)
              = Some (max 100 (min (sim_height sim - 100) (ev_y e1))))
       \<and> (fs \<noteq> [] \<and> 100 \<le> ev_x e1 \<and> ev_x e1 \<le> sim_width sim - 100
            \<and> 100 \<le> ev_y e1 \<and> ev_y e1 \<le> sim_height sim - 100 \<longrightarrow>
            node_x (sim_nodes (runTicks fs (dragended e2 i (dragged e1 i sim))) ! i)
              = Some (ev_x e1)
          \<and> node_y (sim_nodes (runTicks fs (dragended e2 i (dragged e1 i sim))) ! i)
              = Some (ev_y e1))"
proof -
  let ?s = "dragended e2 i (dragged e1 i sim)"
  have i: "i < length (sim_nodes ?s)"
    using assms by (simp add: dragended_frame dragged_nodes)
  have fx: "node_fx (sim_nodes ?s ! i) = Some (ev_x e1)"
    and fy: "node_fy (sim_nodes ?s ! i) = Some (ev_y e1)"
    using assms by (simp_all add: dragended_frame dragged_nodes)
  have size: "sim_width ?s = sim_width sim" "sim_height ?s = sim_height sim"
    using assms by (simp_all add: dragended_frame dragged_nodes)
  have pinned: "node_fx (sim_nodes (runTicks fs ?s) ! i) = Some (ev_x e1)
      \<and> node_fy (sim_nodes (runTicks fs ?s) ! i) = Some (ev_y e1)"
    using runTicks_fixed [OF i, of fs] fx fy by simp
  have pos: "node_x (sim_nodes (runTicks fs ?s) ! i)
              = Some (max 100 (min (sim_width sim - 100) (ev_x e1)))
          \<and> node_y (sim_nodes (runTicks fs ?s) ! i)
              = Some (max 100 (min (sim_height sim - 100) (ev_y e1)))" if "fs \<noteq> []"
    using runTicks_pinned_position [OF i that fx fy] size by simp
  have inside: "node_x (sim_nodes (runTicks fs ?s) ! i) = Some (ev_x e1)
          \<and> node_y (sim_nodes (runTicks fs ?s) ! i) = Some (ev_y e1)"
    if "fs \<noteq> [] \<and> 100 \<le> ev_x e1 \<and> ev_x e1 \<le> sim_width sim - 100
            \<and> 100 \<le> ev_y e1 \<and> ev_y e1 \<le> sim_height sim - 100"
    using pos that by (simp add: max_def min_def)
  show ?thesis
    using pinned pos inside by (simp add: dragended_frame)
qed

theorem drag_end_keeps_node_pinned_witness:
  "(0::nat) < length (sim_nodes
            \<lparr>sim_nodes =
               [\<lparr>node_id = ''A'', explored = True, node_x = Some 500, node_y = Some 400,
                 node_fx = None, node_fy = None\<rparr>,
                \<lparr>node_id = ''B'', explored = False, node_x = Some 300, node_y = Some 300,
                 node_fx = None, node_fy = None\<rparr>],
             sim_links = [], sim_width = 1000, sim_height = 800,
             sim_alpha = 1, sim_alphaTarget = 0, sim_running = True\<rparr>)
   \<and> node_fx (sim_nodes (runTicks [\<lambda>nodes i. (5000, - 20), \<lambda>nodes i. (0, 0)]
        (dragended \<lparr>ev_active = 0, ev_x = 250, ev_y = 640\<rparr> 0
          (dragged \<lparr>ev_active = 1, ev_x = 250, ev_y = 640\<rparr> 0
            \<lparr>sim_nodes =
               [\<lparr>node_id = ''A'', explored = True, node_x = Some 500, node_y = Some 400,
                 node_fx = None, node_fy = None\<rparr>,
                \<lparr>node_id = ''B'', explored = False, node_x = Some 300, node_y = Some 300,
                 node_fx = None, node_fy = None\<rparr>],
             sim_links = [], sim_width = 1000, sim_height = 800,
             sim_alpha = 1, sim_alphaTarget = 0, sim_running = True\<rparr>)))
      ! 0) = Some 250
   \<and> node_fy (sim_nodes (runTicks [\<lambda>nodes i. (5000, - 20), \<lambda>nodes i. (0, 0)]
        (dragended \<lparr>ev_active = 0, ev_x = 250, ev_y = 640\<rparr> 0
          (dragged \<lparr>ev_active = 1, ev_x = 250, ev_y = 640\<rparr> 0
            \<lparr>sim_nodes =
               [\<lparr>node_id = ''A'', explored = True, node_x = Some 500, node_y = Some 400,
                 node_fx = None, node_fy = None\<rparr>,
                \<lparr>node_id = ''B'', explored = False, node_x = Some 300, node_y = Some 300,
                 node_fx = None, node_fy = None\<rparr>],
             sim_links = [], sim_width = 1000, sim_height = 800,
             sim_alpha = 1, sim_alphaTarget = 0, sim_running = True\<rparr>)))
      ! 0) = Some 640
   \<and> node_x (sim_nodes (runTicks [\<lambda>nodes i. (5000, - 20), \<lambda>nodes i. (0, 0)]
        (dragended \<lparr>ev_active = 0, ev_x = 250, ev_y = 640\<rparr> 0
          (dragged \<lparr>ev_active = 1, ev_x = 250, ev_y = 640\<rparr> 0
            \<lparr>sim_nodes =
               [\<lparr>node_id = ''A'', explored = True, node_x = Some 500, node_y = Some 400,
                 node_fx = None, node_fy = None\<rparr>,
                \<lparr>node_id = ''B'', explored = False, node_x = Some 300, node_y = Some 300,
                 node_fx = None, node_fy = None\<rparr>],
             sim_links = [], sim_width = 1000, sim_height = 800,
             sim_alpha = 1, sim_alphaTarget = 0, sim_running = True\<rparr>)))
      ! 0) = Some 250
   \<and> node_y (sim_nodes (runTicks [\<lambda>nodes i. (5000, - 20), \<lambda>nodes i. (0, 0)]
        (dragended \<lparr>ev_active = 0, ev_x = 250, ev_y = 640\<rparr> 0
          (dragged \<lparr>ev_active = 1, ev_x = 250, ev_y = 640\<rparr> 0
            \<lparr>sim_nodes =
               [\<lparr>node_id = ''A'', explored = True, node_x = Some 500, node_y = Some 400,
                 node_fx = None, node_fy = None\<rparr>,
                \<lparr>node_id = ''B'', explored = False, node_x = Some 300, node_y = Some 300,
                 node_fx = None, node_fy = None\<rparr>],
             sim_links = [], sim_width = 1000, sim_height = 800,
             sim_alpha = 1, sim_alphaTarget = 0, sim_running = True\<rparr>)))
      ! 0) = Some 640"
proof -
  let ?sim = "\<lparr>sim_nodes =
               [\<lparr>node_id = ''A'', explored = True, node_x = Some 500, node_y = Some 400,
                 node_fx = None, node_fy = None\<rparr>,
                \<lparr>node_id = ''B'', explored = False, node_x = Some 300, node_y = Some 300,
                 node_fx = None, node_fy = None\<rparr>],
             sim_links = [], sim_width = 1000, sim_height = 800,
             sim_alpha = 1, sim_alphaTarget = 0, sim_running = True\<rparr>"
  let ?fs = "[\<lambda>nodes i. (5000, - 20), \<lambda>nodes i. (0, 0)] :: (node list \<Rightarrow> nat \<Rightarrow> real \<times> real) list"
  let ?e1 = "\<lparr>ev_active = 1, ev_x = 250, ev_y = 640\<rparr>"
  let ?e2 = "\<lparr>ev_active = 0, ev_x = 250, ev_y = 640\<rparr>"
  have h: "0 < length (sim_nodes ?sim)" by simp
  show ?thesis
    using h drag_end_keeps_node_pinned [OF h, of ?e2 ?e1 ?fs]
    by (simp only: drag_event.simps simulation.simps) simp
qed

end
